theory Spec2Isabelle
  imports Complex_Main "HOL-Library.Word"
begin

section \<open>Domain model (package domain)\<close>

text \<open>
  Go's \<open>int64\<close> and PostgreSQL's \<open>BIGINT\<close> are 64-bit two's complement integers:
  they are 64-bit words read through \<open>sint\<close> and compared with the signed orders
  \<open>\<le>s\<close> and \<open><s\<close>. A Go \<open>error\<close> is its message; \<open>nil\<close> is \<open>None\<close>.
  The timestamps \<open>CreatedAt\<close> and \<open>UpdatedAt\<close> are written by the repositories and
  read by no decision of the code; they are left out of the records.
\<close>

type_synonym int64 = "64 word"
type_synonym error = string

record Product =
  p_ID :: string
  p_Name :: string
  p_Description :: string
  p_SKU :: string
  p_Price :: real

record InventoryItem =
  i_ID :: string
  i_ProductID :: string
  i_Quantity :: int64
  i_Reserved :: int64
  i_Location :: string

record Transaction =
  t_ID :: string
  t_InventoryID :: string
  t_ProductID :: string
  t_Type :: string
  t_Quantity :: int64
  t_Reference :: string
  t_Notes :: string

definition Product_Validate :: "Product \<Rightarrow> error option" where
  "Product_Validate p =
     (if p_Name p = [] then Some ''product name cannot be empty''
      else if p_SKU p = [] then Some ''product SKU cannot be empty''
      else if p_Price p < 0 then Some ''product price cannot be negative''
      else None)"

definition AvailableQuantity :: "InventoryItem \<Rightarrow> int64" where
  "AvailableQuantity i =
     (let available = i_Quantity i - i_Reserved i
      in if available <s 0 then 0 else available)"

definition InventoryItem_Validate :: "InventoryItem \<Rightarrow> error option" where
  "InventoryItem_Validate i =
     (if i_ProductID i = [] then Some ''product_id cannot be empty''
      else if i_Quantity i <s 0 then Some ''quantity cannot be negative''
      else if i_Reserved i <s 0 then Some ''reserved quantity cannot be negative''
      else if i_Quantity i <s i_Reserved i
        then Some ''reserved quantity cannot exceed total quantity''
      else if i_Location i = [] then Some ''location cannot be empty''
      else None)"

definition validTypes :: "string list" where
  "validTypes = [''IN'', ''OUT'', ''RETURN'', ''RESERVE'', ''UNRESERVE'']"

definition Transaction_Validate :: "Transaction \<Rightarrow> error option" where
  "Transaction_Validate t =
     (if t_InventoryID t = [] then Some ''inventory_id cannot be empty''
      else if t_ProductID t = [] then Some ''product_id cannot be empty''
      else if t_Quantity t \<le>s 0 then Some ''quantity must be positive''
      else if t_Type t \<notin> set validTypes then Some ''invalid transaction type''
      else None)"

section \<open>The relational store (package repository)\<close>

text \<open>
  The three tables of \<open>InitSchema\<close>, each a list of rows in insertion order, so that the
  transactions table is the ledger in creation order.
\<close>

record Store =
  tbl_products :: "Product list"
  tbl_inventory :: "InventoryItem list"
  tbl_transactions :: "Transaction list"

text \<open>
  What one service call receives from outside the code: the identifiers drawn by
  \<open>uuid.New\<close>, and for each SQL statement the error the driver returns for it, if any
  (connection failure, constraint violation). A statement that fails leaves the tables
  as they were.
\<close>

record Env =
  product_uuid :: string
  inventory_uuid :: string
  transaction_uuid :: string
  product_insert_err :: "error option"
  product_delete_err :: "error option"
  inventory_insert_err :: "error option"
  inventory_select_err :: "error option"
  inventory_update_err :: "error option"
  transaction_insert_err :: "error option"

subsection \<open>PostgresProductRepository\<close>

definition Product_Create :: "Env \<Rightarrow> Store \<Rightarrow> Product \<Rightarrow> error option \<times> Product \<times> Store" where
  "Product_Create env s product =
     (case Product_Validate product of
        Some err \<Rightarrow> (Some (''validation error: '' @ err), product, s)
      | None \<Rightarrow>
          (let product1 = product\<lparr>p_ID := product_uuid env\<rparr>
           in case product_insert_err env of
                Some err \<Rightarrow> (Some (''failed to create product: '' @ err), product1, s)
              | None \<Rightarrow> (None, product1, s\<lparr>tbl_products := tbl_products s @ [product1]\<rparr>)))"

text \<open>
  \<open>DELETE FROM products WHERE id = $1\<close>; the foreign keys of \<open>inventory\<close> and
  \<open>transactions\<close> are declared \<open>ON DELETE CASCADE\<close>.
\<close>

definition Product_Delete :: "Env \<Rightarrow> Store \<Rightarrow> string \<Rightarrow> error option \<times> Store" where
  "Product_Delete env s ident =
     (case product_delete_err env of
        Some err \<Rightarrow> (Some (''failed to delete product: '' @ err), s)
      | None \<Rightarrow>
          if filter (\<lambda>p. p_ID p = ident) (tbl_products s) = [] then (Some ''product not found'', s)
          else
            (let gone = map i_ID (filter (\<lambda>i. i_ProductID i = ident) (tbl_inventory s))
             in (None,
                 s\<lparr>tbl_products := filter (\<lambda>p. p_ID p \<noteq> ident) (tbl_products s),
                   tbl_inventory := filter (\<lambda>i. i_ProductID i \<noteq> ident) (tbl_inventory s),
                   tbl_transactions :=
                     filter (\<lambda>t. t_ProductID t \<noteq> ident \<and> t_InventoryID t \<notin> set gone)
                       (tbl_transactions s)\<rparr>)))"

subsection \<open>PostgresInventoryRepository\<close>

definition Inventory_Create ::
  "Env \<Rightarrow> Store \<Rightarrow> InventoryItem \<Rightarrow> error option \<times> InventoryItem \<times> Store" where
  "Inventory_Create env s item =
     (case InventoryItem_Validate item of
        Some err \<Rightarrow> (Some (''validation error: '' @ err), item, s)
      | None \<Rightarrow>
          (let item1 = item\<lparr>i_ID := inventory_uuid env\<rparr>
           in case inventory_insert_err env of
                Some err \<Rightarrow> (Some (''failed to create inventory item: '' @ err), item1, s)
              | None \<Rightarrow> (None, item1, s\<lparr>tbl_inventory := tbl_inventory s @ [item1]\<rparr>)))"

definition Inventory_GetByProductID :: "Env \<Rightarrow> Store \<Rightarrow> string \<Rightarrow> error + InventoryItem" where
  "Inventory_GetByProductID env s productID =
     (case inventory_select_err env of
        Some err \<Rightarrow> Inl (''failed to get inventory item: '' @ err)
      | None \<Rightarrow>
          (case find (\<lambda>i. i_ProductID i = productID) (tbl_inventory s) of
             None \<Rightarrow> Inl ''inventory item not found''
           | Some item \<Rightarrow> Inr item))"

text \<open>
  \<open>BIGINT\<close> arithmetic in PostgreSQL does not wrap: a result outside the 64-bit range
  aborts the statement with \<open>bigint out of range\<close>.
\<close>

definition sql_add :: "int64 \<Rightarrow> int64 \<Rightarrow> int64 option" where
  "sql_add a b =
     (if - (2 ^ 63) \<le> sint a + sint b \<and> sint a + sint b < 2 ^ 63 then Some (a + b) else None)"

definition sql_sub :: "int64 \<Rightarrow> int64 \<Rightarrow> int64 option" where
  "sql_sub a b =
     (if - (2 ^ 63) \<le> sint a - sint b \<and> sint a - sint b < 2 ^ 63 then Some (a - b) else None)"

definition bigint_out_of_range :: error where
  "bigint_out_of_range = ''pq: bigint out of range''"

text \<open>
  The \<open>WHERE\<close> clause of \<open>UpdateQuantity\<close> on one row:
  \<open>id = $4 AND (quantity + $1) >= 0 AND (reserved + $2) >= 0
   AND (quantity + $1 - reserved - $2) >= 0\<close>,
  the conjuncts read from the left. \<open>None\<close> is the arithmetic error. In whatever
  order PostgreSQL reads the conjuncts, the row is updated exactly when all four hold
  without overflow; the order only decides between the arithmetic error and a row
  that is not matched.
\<close>

definition UpdateQuantity_where ::
  "string \<Rightarrow> int64 \<Rightarrow> int64 \<Rightarrow> InventoryItem \<Rightarrow> bool option" where
  "UpdateQuantity_where inventoryID quantityDelta reservedDelta row =
     (if i_ID row \<noteq> inventoryID then Some False
      else
        (case sql_add (i_Quantity row) quantityDelta of
           None \<Rightarrow> None
         | Some q1 \<Rightarrow>
             if \<not> (0 \<le>s q1) then Some False
             else
               (case sql_add (i_Reserved row) reservedDelta of
                  None \<Rightarrow> None
                | Some r1 \<Rightarrow>
                    if \<not> (0 \<le>s r1) then Some False
                    else
                      (case sql_sub q1 (i_Reserved row) of
                         None \<Rightarrow> None
                       | Some a \<Rightarrow>
                           (case sql_sub a reservedDelta of
                              None \<Rightarrow> None
                            | Some b \<Rightarrow> Some (0 \<le>s b))))))"

text \<open>The \<open>SET\<close> clause: \<open>quantity = quantity + $1, reserved = reserved + $2\<close>.\<close>

definition UpdateQuantity_set :: "int64 \<Rightarrow> int64 \<Rightarrow> InventoryItem \<Rightarrow> InventoryItem" where
  "UpdateQuantity_set quantityDelta reservedDelta row =
     row\<lparr>i_Quantity := i_Quantity row + quantityDelta,
         i_Reserved := i_Reserved row + reservedDelta\<rparr>"

text \<open>
  The \<open>UPDATE\<close> statement over the table: the new table and the number of rows
  changed, or \<open>None\<close> when a row raises the arithmetic error (nothing is changed then).
\<close>

fun UpdateQuantity_exec ::
  "string \<Rightarrow> int64 \<Rightarrow> int64 \<Rightarrow> InventoryItem list \<Rightarrow> (InventoryItem list \<times> nat) option" where
  "UpdateQuantity_exec inventoryID dq dr [] = Some ([], 0)"
| "UpdateQuantity_exec inventoryID dq dr (row # rows) =
     (case UpdateQuantity_where inventoryID dq dr row of
        None \<Rightarrow> None
      | Some hit \<Rightarrow>
          (case UpdateQuantity_exec inventoryID dq dr rows of
             None \<Rightarrow> None
           | Some (rows1, n) \<Rightarrow>
               if hit then Some (UpdateQuantity_set dq dr row # rows1, Suc n)
               else Some (row # rows1, n)))"

definition UpdateQuantity ::
  "Env \<Rightarrow> Store \<Rightarrow> string \<Rightarrow> int64 \<Rightarrow> int64 \<Rightarrow> error option \<times> Store" where
  "UpdateQuantity env s inventoryID quantityDelta reservedDelta =
     (case inventory_update_err env of
        Some err \<Rightarrow> (Some (''failed to update quantity: '' @ err), s)
      | None \<Rightarrow>
          (case UpdateQuantity_exec inventoryID quantityDelta reservedDelta (tbl_inventory s) of
             None \<Rightarrow> (Some (''failed to update quantity: '' @ bigint_out_of_range), s)
           | Some (rows1, n) \<Rightarrow>
               if n = 0
               then (Some ''quantity update failed: invalid operation or item not found'', s)
               else (None, s\<lparr>tbl_inventory := rows1\<rparr>)))"

subsection \<open>PostgresTransactionRepository\<close>

definition Transaction_Create ::
  "Env \<Rightarrow> Store \<Rightarrow> Transaction \<Rightarrow> error option \<times> Store" where
  "Transaction_Create env s transaction =
     (case Transaction_Validate transaction of
        Some err \<Rightarrow> (Some (''validation error: '' @ err), s)
      | None \<Rightarrow>
          (let transaction1 = transaction\<lparr>t_ID := transaction_uuid env\<rparr>
           in case transaction_insert_err env of
                Some err \<Rightarrow> (Some (''failed to create transaction: '' @ err), s)
              | None \<Rightarrow> (None, s\<lparr>tbl_transactions := tbl_transactions s @ [transaction1]\<rparr>)))"

section \<open>InventoryService (package service)\<close>

text \<open>
  Each method returns its \<open>error\<close> and the store it leaves behind. \<open>CreateProduct\<close>
  also returns the product, whose \<open>ID\<close> the repository sets through the pointer.
\<close>

definition CreateProduct ::
  "Env \<Rightarrow> Store \<Rightarrow> Product \<Rightarrow> string \<Rightarrow> int64 \<Rightarrow> error option \<times> Product \<times> Store" where
  "CreateProduct env s product location initialQuantity =
     (case Product_Validate product of
        Some err \<Rightarrow> (Some (''invalid product: '' @ err), product, s)
      | None \<Rightarrow>
          (case Product_Create env s product of
             (Some err, product1, s1) \<Rightarrow>
               (Some (''failed to create product: '' @ err), product1, s1)
           | (None, product1, s1) \<Rightarrow>
               (let inventoryItem =
                      \<lparr>i_ID = [], i_ProductID = p_ID product1, i_Quantity = initialQuantity,
                       i_Reserved = 0, i_Location = location\<rparr>
                in case Inventory_Create env s1 inventoryItem of
                     (Some err, inventoryItem1, s2) \<Rightarrow>
                       (Some (''failed to create inventory: '' @ err), product1,
                        snd (Product_Delete env s2 (p_ID product1)))
                   | (None, inventoryItem1, s2) \<Rightarrow>
                       if 0 <s initialQuantity
                       then
                         (let transaction =
                                \<lparr>t_ID = [], t_InventoryID = i_ID inventoryItem1,
                                 t_ProductID = p_ID product1, t_Type = ''IN'',
                                 t_Quantity = initialQuantity, t_Reference = ''INITIAL_STOCK'',
                                 t_Notes = ''Initial stock entry''\<rparr>
                          in (None, product1, snd (Transaction_Create env s2 transaction)))
                       else (None, product1, s2))))"

definition AddStock ::
  "Env \<Rightarrow> Store \<Rightarrow> string \<Rightarrow> int64 \<Rightarrow> string \<Rightarrow> error option \<times> Store" where
  "AddStock env s productID quantity reference =
     (if quantity \<le>s 0 then (Some ''quantity must be positive'', s)
      else case Inventory_GetByProductID env s productID of
        Inl err \<Rightarrow> (Some (''failed to get inventory: '' @ err), s)
      | Inr inventory \<Rightarrow>
          (case UpdateQuantity env s (i_ID inventory) quantity 0 of
             (Some err, s1) \<Rightarrow> (Some (''failed to update quantity: '' @ err), s1)
           | (None, s1) \<Rightarrow>
               (let transaction =
                      \<lparr>t_ID = [], t_InventoryID = i_ID inventory, t_ProductID = productID,
                       t_Type = ''IN'', t_Quantity = quantity, t_Reference = reference,
                       t_Notes = ''Stock addition''\<rparr>
                in case Transaction_Create env s1 transaction of
                     (Some err, s2) \<Rightarrow> (Some (''failed to record transaction: '' @ err), s2)
                   | (None, s2) \<Rightarrow> (None, s2))))"

definition RemoveStock ::
  "Env \<Rightarrow> Store \<Rightarrow> string \<Rightarrow> int64 \<Rightarrow> string \<Rightarrow> error option \<times> Store" where
  "RemoveStock env s productID quantity reference =
     (if quantity \<le>s 0 then (Some ''quantity must be positive'', s)
      else case Inventory_GetByProductID env s productID of
        Inl err \<Rightarrow> (Some (''failed to get inventory: '' @ err), s)
      | Inr inventory \<Rightarrow>
          if AvailableQuantity inventory <s quantity
          then (Some ''insufficient stock available'', s)
          else
            (case UpdateQuantity env s (i_ID inventory) (- quantity) 0 of
               (Some err, s1) \<Rightarrow> (Some (''failed to update quantity: '' @ err), s1)
             | (None, s1) \<Rightarrow>
                 (let transaction =
                        \<lparr>t_ID = [], t_InventoryID = i_ID inventory, t_ProductID = productID,
                         t_Type = ''OUT'', t_Quantity = quantity, t_Reference = reference,
                         t_Notes = ''Stock removal''\<rparr>
                  in case Transaction_Create env s1 transaction of
                       (Some err, s2) \<Rightarrow> (Some (''failed to record transaction: '' @ err), s2)
                     | (None, s2) \<Rightarrow> (None, s2))))"

definition ReserveStock ::
  "Env \<Rightarrow> Store \<Rightarrow> string \<Rightarrow> int64 \<Rightarrow> string \<Rightarrow> error option \<times> Store" where
  "ReserveStock env s productID quantity reference =
     (if quantity \<le>s 0 then (Some ''quantity must be positive'', s)
      else case Inventory_GetByProductID env s productID of
        Inl err \<Rightarrow> (Some (''failed to get inventory: '' @ err), s)
      | Inr inventory \<Rightarrow>
          if AvailableQuantity inventory <s quantity
          then (Some ''insufficient stock available for reservation'', s)
          else
            (case UpdateQuantity env s (i_ID inventory) 0 quantity of
               (Some err, s1) \<Rightarrow> (Some (''failed to reserve stock: '' @ err), s1)
             | (None, s1) \<Rightarrow>
                 (let transaction =
                        \<lparr>t_ID = [], t_InventoryID = i_ID inventory, t_ProductID = productID,
                         t_Type = ''RESERVE'', t_Quantity = quantity, t_Reference = reference,
                         t_Notes = ''Stock reservation''\<rparr>
                  in case Transaction_Create env s1 transaction of
                       (Some err, s2) \<Rightarrow> (Some (''failed to record transaction: '' @ err), s2)
                     | (None, s2) \<Rightarrow> (None, s2))))"

definition UnreserveStock ::
  "Env \<Rightarrow> Store \<Rightarrow> string \<Rightarrow> int64 \<Rightarrow> string \<Rightarrow> error option \<times> Store" where
  "UnreserveStock env s productID quantity reference =
     (if quantity \<le>s 0 then (Some ''quantity must be positive'', s)
      else case Inventory_GetByProductID env s productID of
        Inl err \<Rightarrow> (Some (''failed to get inventory: '' @ err), s)
      | Inr inventory \<Rightarrow>
          if i_Reserved inventory <s quantity
          then (Some ''insufficient reserved stock'', s)
          else
            (case UpdateQuantity env s (i_ID inventory) 0 (- quantity) of
               (Some err, s1) \<Rightarrow> (Some (''failed to unreserve stock: '' @ err), s1)
             | (None, s1) \<Rightarrow>
                 (let transaction =
                        \<lparr>t_ID = [], t_InventoryID = i_ID inventory, t_ProductID = productID,
                         t_Type = ''UNRESERVE'', t_Quantity = quantity, t_Reference = reference,
                         t_Notes = ''Stock unreservation''\<rparr>
                  in case Transaction_Create env s1 transaction of
                       (Some err, s2) \<Rightarrow> (Some (''failed to record transaction: '' @ err), s2)
                     | (None, s2) \<Rightarrow> (None, s2))))"

section \<open>Callers of the service\<close>

text \<open>One call of a stock method: what the API handlers pass on.\<close>

datatype stock_method = MAddStock | MRemoveStock | MReserveStock | MUnreserveStock

record call =
  c_method :: stock_method
  c_productID :: string
  c_quantity :: int64
  c_reference :: string

definition invoke :: "Env \<Rightarrow> Store \<Rightarrow> call \<Rightarrow> error option \<times> Store" where
  "invoke env s c =
     (case c_method c of
        MAddStock \<Rightarrow> AddStock env s (c_productID c) (c_quantity c) (c_reference c)
      | MRemoveStock \<Rightarrow> RemoveStock env s (c_productID c) (c_quantity c) (c_reference c)
      | MReserveStock \<Rightarrow> ReserveStock env s (c_productID c) (c_quantity c) (c_reference c)
      | MUnreserveStock \<Rightarrow> UnreserveStock env s (c_productID c) (c_quantity c) (c_reference c))"

text \<open>The check each method makes on the row it read.\<close>

definition precheck :: "stock_method \<Rightarrow> InventoryItem \<Rightarrow> int64 \<Rightarrow> error option" where
  "precheck m inventory quantity =
     (case m of
        MAddStock \<Rightarrow> None
      | MRemoveStock \<Rightarrow>
          if AvailableQuantity inventory <s quantity then Some ''insufficient stock available''
          else None
      | MReserveStock \<Rightarrow>
          if AvailableQuantity inventory <s quantity
          then Some ''insufficient stock available for reservation''
          else None
      | MUnreserveStock \<Rightarrow>
          if i_Reserved inventory <s quantity then Some ''insufficient reserved stock''
          else None)"

text \<open>The deltas each method passes to \<open>UpdateQuantity\<close>.\<close>

definition quantityDelta :: "call \<Rightarrow> int64" where
  "quantityDelta c =
     (case c_method c of
        MAddStock \<Rightarrow> c_quantity c | MRemoveStock \<Rightarrow> - c_quantity c
      | MReserveStock \<Rightarrow> 0 | MUnreserveStock \<Rightarrow> 0)"

definition reservedDelta :: "call \<Rightarrow> int64" where
  "reservedDelta c =
     (case c_method c of
        MAddStock \<Rightarrow> 0 | MRemoveStock \<Rightarrow> 0
      | MReserveStock \<Rightarrow> c_quantity c | MUnreserveStock \<Rightarrow> - c_quantity c)"

definition update_failed :: "stock_method \<Rightarrow> error" where
  "update_failed m =
     (case m of
        MAddStock \<Rightarrow> ''failed to update quantity: ''
      | MRemoveStock \<Rightarrow> ''failed to update quantity: ''
      | MReserveStock \<Rightarrow> ''failed to reserve stock: ''
      | MUnreserveStock \<Rightarrow> ''failed to unreserve stock: '')"

text \<open>The transaction record each method builds.\<close>

definition transaction_of :: "call \<Rightarrow> InventoryItem \<Rightarrow> Transaction" where
  "transaction_of c inventory =
     \<lparr>t_ID = [], t_InventoryID = i_ID inventory, t_ProductID = c_productID c,
      t_Type =
        (case c_method c of
           MAddStock \<Rightarrow> ''IN'' | MRemoveStock \<Rightarrow> ''OUT''
         | MReserveStock \<Rightarrow> ''RESERVE'' | MUnreserveStock \<Rightarrow> ''UNRESERVE''),
      t_Quantity = c_quantity c, t_Reference = c_reference c,
      t_Notes =
        (case c_method c of
           MAddStock \<Rightarrow> ''Stock addition'' | MRemoveStock \<Rightarrow> ''Stock removal''
         | MReserveStock \<Rightarrow> ''Stock reservation''
         | MUnreserveStock \<Rightarrow> ''Stock unreservation'')\<rparr>"

text \<open>
  The four methods differ in their check, their deltas, their messages and their
  transaction record only; \<open>stock_call\<close> is their common shape, shown below to be
  what \<open>invoke\<close> computes.
\<close>

definition stock_call :: "Env \<Rightarrow> Store \<Rightarrow> call \<Rightarrow> error option \<times> Store" where
  "stock_call env s c =
     (if c_quantity c \<le>s 0 then (Some ''quantity must be positive'', s)
      else
        (case Inventory_GetByProductID env s (c_productID c) of
           Inl err \<Rightarrow> (Some (''failed to get inventory: '' @ err), s)
         | Inr inventory \<Rightarrow>
             (case precheck (c_method c) inventory (c_quantity c) of
                Some err \<Rightarrow> (Some err, s)
              | None \<Rightarrow>
                  (case UpdateQuantity env s (i_ID inventory) (quantityDelta c) (reservedDelta c) of
                     (Some err, s1) \<Rightarrow> (Some (update_failed (c_method c) @ err), s1)
                   | (None, s1) \<Rightarrow>
                       (case Transaction_Create env s1 (transaction_of c inventory) of
                          (Some err, s2) \<Rightarrow> (Some (''failed to record transaction: '' @ err), s2)
                        | (None, s2) \<Rightarrow> (None, s2))))))"

datatype request = ReqCreateProduct Product string int64 | ReqStock call

fun handle :: "Env \<Rightarrow> Store \<Rightarrow> request \<Rightarrow> error option \<times> Store" where
  "handle env s (ReqCreateProduct product location initialQuantity) =
     (case CreateProduct env s product location initialQuantity of (err, _, s1) \<Rightarrow> (err, s1))"
| "handle env s (ReqStock c) = invoke env s c"

text \<open>
  A sequence of requests served one after the other, each with its own environment:
  the errors returned, in order, and the final store.
\<close>

fun run :: "Store \<Rightarrow> (Env \<times> request) list \<Rightarrow> error option list \<times> Store" where
  "run s [] = ([], s)"
| "run s ((env, r) # rest) =
     (case handle env s r of
        (err, s1) \<Rightarrow> (case run s1 rest of (errs, s2) \<Rightarrow> (err # errs, s2)))"

definition empty_store :: Store where
  "empty_store = \<lparr>tbl_products = [], tbl_inventory = [], tbl_transactions = []\<rparr>"

text \<open>The environment in which no statement fails.\<close>

definition no_faults :: "Env \<Rightarrow> bool" where
  "no_faults env =
     (product_insert_err env = None \<and> product_delete_err env = None \<and>
      inventory_insert_err env = None \<and> inventory_select_err env = None \<and>
      inventory_update_err env = None \<and> transaction_insert_err env = None)"

text \<open>
  The error of a stock method whose mutation was applied and whose transaction record
  was not written: the one built by \<open>fmt.Errorf("failed to record transaction: %w", err)\<close>.
\<close>

definition audit_failure :: "error \<Rightarrow> bool" where
  "audit_failure e = (take 30 e = ''failed to record transaction: '')"

subsection \<open>Properties of rows and tables\<close>

text \<open>The invariant \<open>0 \<le> reserved \<le> quantity\<close> of one row.\<close>

definition item_inv :: "InventoryItem \<Rightarrow> bool" where
  "item_inv i = (0 \<le> sint (i_Reserved i) \<and> sint (i_Reserved i) \<le> sint (i_Quantity i))"

text \<open>
  What the schema and the repositories guarantee of the inventory table: \<open>id\<close> is the
  primary key, every \<open>id\<close> is a uuid string (not empty), and every row passed
  \<open>Validate\<close>.
\<close>

definition wf_store :: "Store \<Rightarrow> bool" where
  "wf_store s =
     (distinct (map i_ID (tbl_inventory s)) \<and>
      list_all (\<lambda>i. i_ID i \<noteq> [] \<and> InventoryItem_Validate i = None) (tbl_inventory s))"

definition store_inv :: "Store \<Rightarrow> bool" where
  "store_inv s = list_all item_inv (tbl_inventory s)"

subsection \<open>The ledger\<close>

text \<open>The sum of the quantities of the transactions of one product and one type.\<close>

definition ledger_sum :: "string \<Rightarrow> string \<Rightarrow> Transaction list \<Rightarrow> int" where
  "ledger_sum productID ty txs =
     sum_list (map (\<lambda>t. sint (t_Quantity t))
       (filter (\<lambda>t. t_ProductID t = productID \<and> t_Type t = ty) txs))"

text \<open>The types of the transactions the service writes.\<close>

definition engine_types :: "Store \<Rightarrow> bool" where
  "engine_types s =
     list_all (\<lambda>t. t_Type t \<in> set [''IN'', ''OUT'', ''RESERVE'', ''UNRESERVE''])
       (tbl_transactions s)"

text \<open>
  Replaying a ledger, as the specification words it: each transaction applies its delta
  to the pair (quantity, reserved).
\<close>

definition spec_apply_transaction :: "int \<times> int \<Rightarrow> Transaction \<Rightarrow> int \<times> int" where
  "spec_apply_transaction st t =
     (case st of (q, r) \<Rightarrow>
        if t_Type t = ''IN'' then (q + sint (t_Quantity t), r)
        else if t_Type t = ''OUT'' then (q - sint (t_Quantity t), r)
        else if t_Type t = ''RESERVE'' then (q, r + sint (t_Quantity t))
        else if t_Type t = ''UNRESERVE'' then (q, r - sint (t_Quantity t))
        else (q, r))"

definition spec_replay :: "int \<times> int \<Rightarrow> Transaction list \<Rightarrow> int \<times> int" where
  "spec_replay st txs = foldl spec_apply_transaction st txs"

section \<open>Concurrent callers\<close>

text \<open>
  Requests are served concurrently and the service holds no lock, so between two SQL
  statements of one call the statements of another call may run. Each statement is
  atomic. A call in progress is at one of four points: before its \<open>SELECT\<close>, after it
  with the row it read, after its \<open>UPDATE\<close>, or returned.
\<close>

datatype pc = Start | Checked InventoryItem | Updated InventoryItem | Done "error option"

text \<open>One statement of a call in progress.\<close>

fun thread_step :: "Env \<Rightarrow> call \<Rightarrow> pc \<Rightarrow> Store \<Rightarrow> pc \<times> Store" where
  "thread_step env c Start s =
     (if c_quantity c \<le>s 0 then (Done (Some ''quantity must be positive''), s)
      else
        (case Inventory_GetByProductID env s (c_productID c) of
           Inl err \<Rightarrow> (Done (Some (''failed to get inventory: '' @ err)), s)
         | Inr inventory \<Rightarrow>
             (case precheck (c_method c) inventory (c_quantity c) of
                Some err \<Rightarrow> (Done (Some err), s)
              | None \<Rightarrow> (Checked inventory, s))))"
| "thread_step env c (Checked inventory) s =
     (case UpdateQuantity env s (i_ID inventory) (quantityDelta c) (reservedDelta c) of
        (Some err, s1) \<Rightarrow> (Done (Some (update_failed (c_method c) @ err)), s1)
      | (None, s1) \<Rightarrow> (Updated inventory, s1))"
| "thread_step env c (Updated inventory) s =
     (case Transaction_Create env s (transaction_of c inventory) of
        (Some err, s2) \<Rightarrow> (Done (Some (''failed to record transaction: '' @ err)), s2)
      | (None, s2) \<Rightarrow> (Done None, s2))"
| "thread_step env c (Done err) s = (Done err, s)"

text \<open>A call that runs its three statements with no other call in between.\<close>

definition alone :: "Env \<Rightarrow> call \<Rightarrow> Store \<Rightarrow> pc \<times> Store" where
  "alone env c s =
     (case thread_step env c Start s of
        (p1, s1) \<Rightarrow>
          (case thread_step env c p1 s1 of (p2, s2) \<Rightarrow> thread_step env c p2 s2))"

text \<open>
  Two calls in progress on one store. The schedule says which call runs its next
  statement: \<open>True\<close> the first, \<open>False\<close> the second.
\<close>

record Conc =
  pc_a :: pc
  pc_b :: pc
  store :: Store

definition conc_step :: "Env \<times> call \<Rightarrow> Env \<times> call \<Rightarrow> Conc \<Rightarrow> bool \<Rightarrow> Conc" where
  "conc_step a b k first =
     (if first
      then (case thread_step (fst a) (snd a) (pc_a k) (store k) of
              (p, s1) \<Rightarrow> k\<lparr>pc_a := p, store := s1\<rparr>)
      else (case thread_step (fst b) (snd b) (pc_b k) (store k) of
              (p, s1) \<Rightarrow> k\<lparr>pc_b := p, store := s1\<rparr>))"

definition conc_run :: "Env \<times> call \<Rightarrow> Env \<times> call \<Rightarrow> Store \<Rightarrow> bool list \<Rightarrow> Conc" where
  "conc_run a b s schedule =
     foldl (conc_step a b) \<lparr>pc_a = Start, pc_b = Start, store = s\<rparr> schedule"

subsection \<open>Reading and writing one row\<close>

text \<open>
  The row \<open>GetByProductID\<close> reads, the table after an \<open>UPDATE\<close> that changed
  the row of one \<open>id\<close>, the ledger after an \<open>INSERT\<close>, and the result of a stock
  method on a store where it reads row \<open>i\<close>; all four are shown below to be what the
  repositories and the service compute.
\<close>

definition item_of :: "Store \<Rightarrow> string \<Rightarrow> InventoryItem option" where
  "item_of s productID = find (\<lambda>i. i_ProductID i = productID) (tbl_inventory s)"

definition apply_delta :: "Store \<Rightarrow> string \<Rightarrow> int64 \<Rightarrow> int64 \<Rightarrow> Store" where
  "apply_delta s ident dq dr =
     s\<lparr>tbl_inventory :=
         map (\<lambda>r. if i_ID r = ident then UpdateQuantity_set dq dr r else r) (tbl_inventory s)\<rparr>"

definition append_transaction :: "Env \<Rightarrow> Store \<Rightarrow> Transaction \<Rightarrow> Store" where
  "append_transaction env s t =
     s\<lparr>tbl_transactions := tbl_transactions s @ [t\<lparr>t_ID := transaction_uuid env\<rparr>]\<rparr>"

definition outcome :: "Env \<Rightarrow> Store \<Rightarrow> call \<Rightarrow> InventoryItem \<Rightarrow> error option \<times> Store" where
  "outcome env s c i =
     (case precheck (c_method c) i (c_quantity c) of
        Some e \<Rightarrow> (Some e, s)
      | None \<Rightarrow>
          (case UpdateQuantity_where (i_ID i) (quantityDelta c) (reservedDelta c) i of
             None \<Rightarrow>
               (Some (update_failed (c_method c) @ ''failed to update quantity: '' @ bigint_out_of_range), s)
           | Some hit \<Rightarrow>
               if hit
               then
                 (case transaction_insert_err env of
                    None \<Rightarrow>
                      (None,
                       append_transaction env
                         (apply_delta s (i_ID i) (quantityDelta c) (reservedDelta c))
                         (transaction_of c i))
                  | Some e \<Rightarrow>
                      (Some (''failed to record transaction: '' @ ''failed to create transaction: '' @ e),
                       apply_delta s (i_ID i) (quantityDelta c) (reservedDelta c)))
               else
                 (Some (update_failed (c_method c) @
                    ''quantity update failed: invalid operation or item not found''), s)))"

subsection \<open>Sequences on one product\<close>

text \<open>
  A request on one product; a result that is not the failure to record the transaction;
  the quantity and reserved of a product's row, as integers; and the transactions
  appended to the ledger between two stores.
\<close>

fun on_product :: "string \<Rightarrow> request \<Rightarrow> bool" where
  "on_product productID (ReqStock c) = (c_productID c = productID)"
| "on_product productID (ReqCreateProduct product location initialQuantity) = False"

definition recorded :: "error option \<Rightarrow> bool" where
  "recorded err = (case err of None \<Rightarrow> True | Some e \<Rightarrow> \<not> audit_failure e)"

definition balance :: "Store \<Rightarrow> string \<Rightarrow> (int \<times> int) option" where
  "balance s productID =
     map_option (\<lambda>i. (sint (i_Quantity i), sint (i_Reserved i))) (item_of s productID)"

definition ledger_since :: "Store \<Rightarrow> Store \<Rightarrow> Transaction list" where
  "ledger_since s0 s1 = drop (length (tbl_transactions s0)) (tbl_transactions s1)"

subsection \<open>Two racing calls\<close>

text \<open>
  Two calls jointly violate the invariant on row \<open>i\<close> when the row with both pairs of
  deltas added (as integers) does not satisfy \<open>0 \<le> reserved \<le> quantity\<close>.
\<close>

definition jointly_violate :: "InventoryItem \<Rightarrow> call \<Rightarrow> call \<Rightarrow> bool" where
  "jointly_violate i a b =
     (\<not> (0 \<le> sint (i_Reserved i) + sint (reservedDelta a) + sint (reservedDelta b) \<and>
         sint (i_Reserved i) + sint (reservedDelta a) + sint (reservedDelta b)
           \<le> sint (i_Quantity i) + sint (quantityDelta a) + sint (quantityDelta b)))"

text \<open>
  Two calls race on the row \<open>i\<close> of one product of a well-formed store: no statement
  fails, each call alone would succeed, and the two jointly violate the invariant.
\<close>

definition racing :: "Store \<Rightarrow> InventoryItem \<Rightarrow> Env \<times> call \<Rightarrow> Env \<times> call \<Rightarrow> bool" where
  "racing s i x y =
     (wf_store s \<and> item_of s (c_productID (snd x)) = Some i \<and>
      c_productID (snd y) = c_productID (snd x) \<and>
      no_faults (fst x) \<and> no_faults (fst y) \<and>
      fst (invoke (fst x) s (snd x)) = None \<and> fst (invoke (fst y) s (snd y)) = None \<and>
      jointly_violate i (snd x) (snd y))"

text \<open>
  The configurations a race goes through. Before any update the store is the initial
  one and each call is before or after its read. Once the update of one call is applied,
  the store is the initial one with that call's deltas (and then its transaction), and
  the other call is before its read, after it, or returned with an error.
\<close>

definition applied_store :: "Store \<Rightarrow> InventoryItem \<Rightarrow> call \<Rightarrow> Store" where
  "applied_store s i c = apply_delta s (i_ID i) (quantityDelta c) (reservedDelta c)"

definition phase0 :: "Store \<Rightarrow> InventoryItem \<Rightarrow> pc \<Rightarrow> pc \<Rightarrow> Store \<Rightarrow> bool" where
  "phase0 s i px py st =
     (st = s \<and> (px = Start \<or> px = Checked i) \<and> (py = Start \<or> py = Checked i))"

definition waiting_or_rejected :: "InventoryItem \<Rightarrow> pc \<Rightarrow> bool" where
  "waiting_or_rejected i p =
     (case p of
        Start \<Rightarrow> True
      | Checked j \<Rightarrow> i_ID j = i_ID i
      | Updated j \<Rightarrow> False
      | Done e \<Rightarrow> e \<noteq> None)"

definition phase1 ::
  "Store \<Rightarrow> InventoryItem \<Rightarrow> Env \<times> call \<Rightarrow> pc \<Rightarrow> pc \<Rightarrow> Store \<Rightarrow> bool" where
  "phase1 s i x px py st =
     ((px = Updated i \<and> st = applied_store s i (snd x) \<or>
       px = Done None \<and>
       st = append_transaction (fst x) (applied_store s i (snd x)) (transaction_of (snd x) i)) \<and>
      waiting_or_rejected i py)"

definition race_inv ::
  "Store \<Rightarrow> InventoryItem \<Rightarrow> Env \<times> call \<Rightarrow> Env \<times> call \<Rightarrow> Conc \<Rightarrow> bool" where
  "race_inv s i a b k =
     (phase0 s i (pc_a k) (pc_b k) (store k) \<or>
      phase1 s i a (pc_a k) (pc_b k) (store k) \<or>
      phase1 s i b (pc_b k) (pc_a k) (store k))"

text \<open>The statements a call in progress has left, at most.\<close>

definition remaining :: "pc \<Rightarrow> nat" where
  "remaining p = (case p of Start \<Rightarrow> 3 | Checked j \<Rightarrow> 2 | Updated j \<Rightarrow> 1 | Done e \<Rightarrow> 0)"

subsection \<open>The fixtures of the service tests\<close>

text \<open>
  The product \<open>prod-1\<close> with its inventory row \<open>inv-1\<close>, as the tests of
  \<open>inventory_test.go\<close> set them up, and an environment in which no statement fails.
\<close>

definition test_env :: Env where
  "test_env =
     \<lparr>product_uuid = ''test-id-1'', inventory_uuid = ''test-inv-1'',
      transaction_uuid = ''test-tx-1'', product_insert_err = None, product_delete_err = None,
      inventory_insert_err = None, inventory_select_err = None, inventory_update_err = None,
      transaction_insert_err = None\<rparr>"

definition test_item :: "int64 \<Rightarrow> int64 \<Rightarrow> InventoryItem" where
  "test_item q r =
     \<lparr>i_ID = ''inv-1'', i_ProductID = ''prod-1'', i_Quantity = q, i_Reserved = r,
      i_Location = ''Warehouse A''\<rparr>"

definition test_store :: "int64 \<Rightarrow> int64 \<Rightarrow> Store" where
  "test_store q r =
     \<lparr>tbl_products =
        [\<lparr>p_ID = ''prod-1'', p_Name = ''Laptop'', p_Description = ''Gaming Laptop'',
          p_SKU = ''LAP001'', p_Price = 1500\<rparr>],
      tbl_inventory = [test_item q r], tbl_transactions = []\<rparr>"

definition test_product :: Product where
  "test_product =
     \<lparr>p_ID = [], p_Name = ''Laptop'', p_Description = ''Gaming Laptop'', p_SKU = ''LAP001'',
      p_Price = 1500\<rparr>"

text \<open>The same environment with the transactions table out of reach.\<close>

definition tx_down_env :: Env where
  "tx_down_env = test_env\<lparr>transaction_insert_err := Some ''connection refused''\<rparr>"

definition test_stock :: "stock_method \<Rightarrow> int64 \<Rightarrow> call" where
  "test_stock m quantity =
     \<lparr>c_method = m, c_productID = ''prod-1'', c_quantity = quantity,
      c_reference = ''ORDER-001''\<rparr>"

definition test_call :: "stock_method \<Rightarrow> int64 \<Rightarrow> request" where
  "test_call m quantity = ReqStock (test_stock m quantity)"

definition test_calls :: "(Env \<times> request) list" where
  "test_calls =
     [(test_env, test_call MAddStock 20), (test_env, test_call MReserveStock 10),
      (test_env, test_call MRemoveStock 100), (test_env, test_call MRemoveStock 30),
      (test_env, test_call MUnreserveStock 5)]"

section \<open>Arithmetic of 64-bit values\<close>

lemma sint64_bounds: "- (2 ^ 63) \<le> sint (a :: int64)" "sint (a :: int64) < 2 ^ 63"
  using sint_ge [of a] sint_lt [of a] by simp_all

lemma sint64_add:
  "- (2 ^ 63) \<le> sint a + sint b \<Longrightarrow> sint a + sint b < 2 ^ 63 \<Longrightarrow>
   sint (a + b :: int64) = sint a + sint b"
  by (simp add: sint_word_ariths signed_take_bit_int_eq_self)

lemma sint64_sub:
  "- (2 ^ 63) \<le> sint a - sint b \<Longrightarrow> sint a - sint b < 2 ^ 63 \<Longrightarrow>
   sint (a - b :: int64) = sint a - sint b"
  by (simp add: sint_word_ariths signed_take_bit_int_eq_self)

lemma sint64_neg:
  "0 < sint (a :: int64) \<Longrightarrow> sint (- a) = - sint a"
  using sint64_sub [of 0 a] sint64_bounds [of a] by simp

lemma sql_add_Some: "sql_add a b = Some c \<Longrightarrow> c = a + b \<and> sint c = sint a + sint b"
  by (auto simp: sql_add_def sint64_add split: if_splits)

lemma sql_sub_Some: "sql_sub a b = Some c \<Longrightarrow> c = a - b \<and> sint c = sint a - sint b"
  by (auto simp: sql_sub_def sint64_sub split: if_splits)

lemma where_True:
  assumes "UpdateQuantity_where ident dq dr row = Some True"
  shows "i_ID row = ident"
    and "sint (i_Quantity row + dq) = sint (i_Quantity row) + sint dq"
    and "sint (i_Reserved row + dr) = sint (i_Reserved row) + sint dr"
    and "0 \<le> sint (i_Reserved row) + sint dr"
    and "sint (i_Reserved row) + sint dr \<le> sint (i_Quantity row) + sint dq"
  using assms
  by (auto simp: UpdateQuantity_where_def word_sle_eq split: if_splits option.splits
      dest!: sql_add_Some sql_sub_Some)

lemma where_set_inv:
  "UpdateQuantity_where ident dq dr row = Some True \<Longrightarrow> item_inv (UpdateQuantity_set dq dr row)"
  by (simp add: item_inv_def UpdateQuantity_set_def where_True)

lemma where_other: "i_ID row \<noteq> ident \<Longrightarrow> UpdateQuantity_where ident dq dr row = Some False"
  by (simp add: UpdateQuantity_where_def)

text \<open>The statement as a map over the table.\<close>

lemma exec_Some:
  "UpdateQuantity_exec ident dq dr rows = Some (rows1, n) \<Longrightarrow>
   rows1 = map (\<lambda>r. if UpdateQuantity_where ident dq dr r = Some True
                     then UpdateQuantity_set dq dr r else r) rows \<and>
   n = length (filter (\<lambda>r. UpdateQuantity_where ident dq dr r = Some True) rows)"
proof (induction rows arbitrary: rows1 n)
  case Nil
  then show ?case by simp
next
  case (Cons row rows)
  then show ?case
    by (auto split: option.splits if_splits)
qed

lemma exec_inv:
  assumes "UpdateQuantity_exec ident dq dr rows = Some (rows1, n)" and "list_all item_inv rows"
  shows "list_all item_inv rows1"
  using assms by (auto dest!: exec_Some simp: list_all_iff where_set_inv)

lemma exec_absent:
  "ident \<notin> i_ID ` set rows \<Longrightarrow> UpdateQuantity_exec ident dq dr rows = Some (rows, 0)"
  by (induction rows) (auto simp: where_other)

lemma exec_present:
  assumes "distinct (map i_ID rows)" and "row \<in> set rows"
  shows "UpdateQuantity_exec (i_ID row) dq dr rows =
           (case UpdateQuantity_where (i_ID row) dq dr row of
              None \<Rightarrow> None
            | Some hit \<Rightarrow>
                if hit
                then Some (map (\<lambda>r. if i_ID r = i_ID row then UpdateQuantity_set dq dr r else r)
                             rows, 1)
                else Some (rows, 0))"
  using assms
proof (induction rows)
  case Nil
  then show ?case by simp
next
  case (Cons r rows)
  show ?case
  proof (cases "r = row")
    case True
    with Cons.prems have absent: "i_ID row \<notin> i_ID ` set rows" by auto
    then have "map (\<lambda>r. if i_ID r = i_ID row then UpdateQuantity_set dq dr r else r) rows = rows"
      by (induction rows) auto
    with True absent show ?thesis
      by (simp add: exec_absent split: option.splits)
  next
    case False
    with Cons.prems have in_rows: "row \<in> set rows" and "i_ID r \<noteq> i_ID row" by auto
    with Cons show ?thesis
      by (simp add: where_other split: option.splits)
  qed
qed

section \<open>The invariant is preserved\<close>

lemma UpdateQuantity_inv: "store_inv s \<Longrightarrow> store_inv (snd (UpdateQuantity env s ident dq dr))"
  by (auto simp: UpdateQuantity_def store_inv_def split: option.splits dest: exec_inv)

lemma Transaction_Create_inventory [simp]:
  "tbl_inventory (snd (Transaction_Create env s t)) = tbl_inventory s"
  by (simp add: Transaction_Create_def Let_def split: option.splits)

lemma Transaction_Create_inv: "store_inv s \<Longrightarrow> store_inv (snd (Transaction_Create env s t))"
  by (simp add: store_inv_def)

lemma thread_step_inv: "store_inv s \<Longrightarrow> store_inv (snd (thread_step env c p s))"
proof (cases p)
  case Start
  then show "store_inv s \<Longrightarrow> ?thesis" by (simp split: sum.splits option.splits)
next
  case (Checked i)
  assume "store_inv s"
  from UpdateQuantity_inv [OF this] Checked show ?thesis
    by (simp split: prod.splits option.splits) (metis snd_conv)
next
  case (Updated i)
  assume "store_inv s"
  from Transaction_Create_inv [OF this] Updated show ?thesis
    by (simp split: prod.splits option.splits) (metis snd_conv)
next
  case (Done e)
  then show "store_inv s \<Longrightarrow> ?thesis" by simp
qed



lemma case_if_option:
  "(case (if b then Some e else None) of None \<Rightarrow> f | Some x \<Rightarrow> g x) = (if b then g e else f)"
  by simp

lemma invoke_stock_call: "invoke env s c = stock_call env s c"
proof (cases "c_method c")
  case MAddStock
  then show ?thesis
    by (simp add: invoke_def stock_call_def AddStock_def precheck_def quantityDelta_def
        reservedDelta_def update_failed_def transaction_of_def Let_def case_if_option
        cong: sum.case_cong option.case_cong prod.case_cong if_cong)
next
  case MRemoveStock
  then show ?thesis
    by (simp add: invoke_def stock_call_def RemoveStock_def precheck_def quantityDelta_def
        reservedDelta_def update_failed_def transaction_of_def Let_def case_if_option
        cong: sum.case_cong option.case_cong prod.case_cong if_cong)
next
  case MReserveStock
  then show ?thesis
    by (simp add: invoke_def stock_call_def ReserveStock_def precheck_def quantityDelta_def
        reservedDelta_def update_failed_def transaction_of_def Let_def case_if_option
        cong: sum.case_cong option.case_cong prod.case_cong if_cong)
next
  case MUnreserveStock
  then show ?thesis
    by (simp add: invoke_def stock_call_def UnreserveStock_def precheck_def quantityDelta_def
        reservedDelta_def update_failed_def transaction_of_def Let_def case_if_option
        cong: sum.case_cong option.case_cong prod.case_cong if_cong)
qed


lemma UpdateQuantity_inv': "UpdateQuantity env s ident dq dr = (e, s1) \<Longrightarrow> store_inv s \<Longrightarrow> store_inv s1"
  using UpdateQuantity_inv [of s env ident dq dr] by simp

lemma Transaction_Create_inv': "Transaction_Create env s t = (e, s1) \<Longrightarrow> store_inv s \<Longrightarrow> store_inv s1"
  using Transaction_Create_inv [of s env t] by simp

lemma stock_call_inv: "store_inv s \<Longrightarrow> store_inv (snd (stock_call env s c))"
  by (auto simp: stock_call_def split: sum.split option.split prod.split
      dest: UpdateQuantity_inv' Transaction_Create_inv')

lemma Validate_item_inv: "InventoryItem_Validate i = None \<Longrightarrow> item_inv i"
  by (auto simp: InventoryItem_Validate_def item_inv_def word_sless_alt split: if_splits)

lemma Inventory_Create_inv:
  "Inventory_Create env s item = (e, item1, s1) \<Longrightarrow> store_inv s \<Longrightarrow> store_inv s1"
  by (auto simp: Inventory_Create_def Let_def store_inv_def item_inv_def
      dest!: Validate_item_inv simp del: split: option.splits)

lemma Product_Create_inv:
  "Product_Create env s p = (e, p1, s1) \<Longrightarrow> store_inv s \<Longrightarrow> store_inv s1"
  by (auto simp: Product_Create_def Let_def store_inv_def split: option.splits)

lemma Product_Delete_inv: "store_inv s \<Longrightarrow> store_inv (snd (Product_Delete env s ident))"
  by (auto simp: Product_Delete_def Let_def store_inv_def list_all_iff split: option.splits)

lemma CreateProduct_inv:
  "store_inv s \<Longrightarrow> store_inv (snd (snd (CreateProduct env s p loc q)))"
  by (auto simp: CreateProduct_def Let_def
      split: option.split prod.split
      dest: Product_Create_inv Inventory_Create_inv
      intro!: Product_Delete_inv Transaction_Create_inv)

lemma handle_inv: "store_inv s \<Longrightarrow> store_inv (snd (handle env s r))"
proof (cases r)
  case (ReqCreateProduct p loc q)
  assume "store_inv s"
  from CreateProduct_inv [OF this, of env p loc q] ReqCreateProduct show ?thesis
    by (cases "CreateProduct env s p loc q") simp
next
  case (ReqStock c)
  assume "store_inv s"
  with ReqStock show ?thesis by (simp add: invoke_stock_call stock_call_inv)
qed

lemma run_inv: "store_inv s \<Longrightarrow> store_inv (snd (run s calls))"
proof (induction calls arbitrary: s)
  case Nil
  then show ?case by simp
next
  case (Cons a calls)
  obtain env r where a: "a = (env, r)" by (cases a)
  obtain e s1 where h: "handle env s r = (e, s1)" by (cases "handle env s r")
  with Cons.prems handle_inv [of s env r] have "store_inv s1" by simp
  from Cons.IH [OF this] a h show ?case by (cases "run s1 calls") simp
qed

text \<open>
  C1. Starting from the empty store, after any sequence of CreateProduct, AddStock,
  RemoveStock, ReserveStock and UnreserveStock requests, served under any environment
  (any statement may fail), every inventory row satisfies
  \<open>0 \<le> reserved \<le> quantity\<close>. Every row is created by CreateProduct with
  \<open>reserved = 0\<close> and a quantity that passed \<open>Validate\<close>; every prefix of a
  sequence is a sequence, so the invariant holds after every operation.
\<close>

theorem C1_invariant_reachable:
  "list_all (\<lambda>i. 0 \<le> sint (i_Reserved i) \<and> sint (i_Reserved i) \<le> sint (i_Quantity i))
     (tbl_inventory (snd (run empty_store calls)))"
proof -
  have "store_inv empty_store" by (simp add: store_inv_def empty_store_def)
  from run_inv [OF this, of calls] show ?thesis
    by (simp add: store_inv_def item_inv_def [abs_def])
qed

section \<open>A stock method on a well-formed store\<close>

lemma item_of_D: "item_of s pid = Some i \<Longrightarrow> i \<in> set (tbl_inventory s) \<and> i_ProductID i = pid"
  by (auto simp: item_of_def find_Some_iff)

lemma wf_store_D:
  "wf_store s \<Longrightarrow> i \<in> set (tbl_inventory s) \<Longrightarrow> i_ID i \<noteq> [] \<and> InventoryItem_Validate i = None"
  by (auto simp: wf_store_def list_all_iff)

lemma Validate_None_D:
  "InventoryItem_Validate i = None \<Longrightarrow>
   i_ProductID i \<noteq> [] \<and> 0 \<le> sint (i_Reserved i) \<and> sint (i_Reserved i) \<le> sint (i_Quantity i)
   \<and> i_Location i \<noteq> []"
  by (auto simp: InventoryItem_Validate_def word_sless_alt split: if_splits)

lemma Validate_None_I:
  "i_ProductID i \<noteq> [] \<Longrightarrow> 0 \<le> sint (i_Reserved i) \<Longrightarrow> sint (i_Reserved i) \<le> sint (i_Quantity i)
   \<Longrightarrow> i_Location i \<noteq> [] \<Longrightarrow> InventoryItem_Validate i = None"
  by (auto simp: InventoryItem_Validate_def word_sless_alt)

lemma Get_item_of:
  "inventory_select_err env = None \<Longrightarrow>
   Inventory_GetByProductID env s pid =
     (case item_of s pid of None \<Rightarrow> Inl ''inventory item not found'' | Some i \<Rightarrow> Inr i)"
  by (simp add: Inventory_GetByProductID_def item_of_def)

lemma UpdateQuantity_wf:
  assumes "wf_store s" and "item_of s pid = Some i" and "inventory_update_err env = None"
  shows "UpdateQuantity env s (i_ID i) dq dr =
     (case UpdateQuantity_where (i_ID i) dq dr i of
        None \<Rightarrow> (Some (''failed to update quantity: '' @ bigint_out_of_range), s)
      | Some hit \<Rightarrow>
          if hit then (None, apply_delta s (i_ID i) dq dr)
          else (Some ''quantity update failed: invalid operation or item not found'', s))"
proof -
  from assms have "distinct (map i_ID (tbl_inventory s))" and "i \<in> set (tbl_inventory s)"
    by (auto simp: wf_store_def dest: item_of_D)
  from exec_present [OF this, of dq dr] assms(3) show ?thesis
    by (simp add: UpdateQuantity_def apply_delta_def split: option.split)
qed

lemma set_preserves [simp]:
  "i_ID (UpdateQuantity_set dq dr r) = i_ID r"
  "i_ProductID (UpdateQuantity_set dq dr r) = i_ProductID r"
  "i_Location (UpdateQuantity_set dq dr r) = i_Location r"
  "i_Quantity (UpdateQuantity_set dq dr r) = i_Quantity r + dq"
  "i_Reserved (UpdateQuantity_set dq dr r) = i_Reserved r + dr"
  by (simp_all add: UpdateQuantity_set_def)

lemma find_map_same:
  "(\<And>r. P (f r) = P r) \<Longrightarrow> find P (map f rows) = map_option f (find P rows)"
  by (induction rows) auto

lemma item_of_apply_delta:
  "item_of (apply_delta s ident dq dr) pid =
     map_option (\<lambda>r. if i_ID r = ident then UpdateQuantity_set dq dr r else r) (item_of s pid)"
  unfolding item_of_def apply_delta_def
  by (simp add: find_map_same)

lemma where_Validate:
  assumes "UpdateQuantity_where ident dq dr row = Some True" and "InventoryItem_Validate row = None"
  shows "InventoryItem_Validate (UpdateQuantity_set dq dr row) = None"
proof -
  note w = where_True [OF assms(1)]
  from Validate_None_D [OF assms(2)] w show ?thesis
    by (intro Validate_None_I) simp_all
qed

lemma wf_apply_delta:
  assumes "wf_store s" and "item_of s pid = Some i"
    and "UpdateQuantity_where (i_ID i) dq dr i = Some True"
  shows "wf_store (apply_delta s (i_ID i) dq dr)"
proof -
  have ids: "i_ID \<circ> (\<lambda>r. if i_ID r = i_ID i then UpdateQuantity_set dq dr r else r) = i_ID"
    by (auto simp: fun_eq_iff)
  have rows: "r = i" if "r \<in> set (tbl_inventory s)" and "i_ID r = i_ID i" for r
    using that assms(1,2) by (auto simp: wf_store_def distinct_map inj_on_def dest: item_of_D)
  from assms(1) have d: "distinct (map i_ID (tbl_inventory s))" by (simp add: wf_store_def)
  have valid: "i_ID r' \<noteq> [] \<and> InventoryItem_Validate r' = None"
    if "r' \<in> set (tbl_inventory (apply_delta s (i_ID i) dq dr))" for r'
  proof -
    from that obtain r where r: "r \<in> set (tbl_inventory s)"
      and r': "r' = (if i_ID r = i_ID i then UpdateQuantity_set dq dr r else r)"
      by (auto simp: apply_delta_def)
    show ?thesis
    proof (cases "i_ID r = i_ID i")
      case True
      with rows r have "r = i" by simp
      with r r' True wf_store_D [OF assms(1) r] where_Validate [OF assms(3)] show ?thesis by simp
    next
      case False
      with r' wf_store_D [OF assms(1) r] show ?thesis by simp
    qed
  qed
  have "distinct (map i_ID (tbl_inventory (apply_delta s (i_ID i) dq dr)))"
    using ids d by (simp add: apply_delta_def)
  moreover have "\<forall>r'\<in>set (tbl_inventory (apply_delta s (i_ID i) dq dr)).
      i_ID r' \<noteq> [] \<and> InventoryItem_Validate r' = None"
    using valid by blast
  ultimately show ?thesis
    unfolding wf_store_def list_all_iff by (rule conjI)
qed


lemma where_True_I:
  assumes "0 \<le> sint (i_Reserved i)"
    and "0 \<le> sint (i_Quantity i) + sint dq" and "sint (i_Quantity i) + sint dq < 2 ^ 63"
    and "0 \<le> sint (i_Reserved i) + sint dr" and "sint (i_Reserved i) + sint dr < 2 ^ 63"
    and "sint (i_Reserved i) + sint dr \<le> sint (i_Quantity i) + sint dq"
  shows "UpdateQuantity_where (i_ID i) dq dr i = Some True"
proof -
  have q1: "sql_add (i_Quantity i) dq = Some (i_Quantity i + dq)"
    and sq1: "sint (i_Quantity i + dq) = sint (i_Quantity i) + sint dq"
    using assms by (simp_all add: sql_add_def sint64_add)
  have r1: "sql_add (i_Reserved i) dr = Some (i_Reserved i + dr)"
    and sr1: "sint (i_Reserved i + dr) = sint (i_Reserved i) + sint dr"
    using assms by (simp_all add: sql_add_def sint64_add)
  have bound: "sint (i_Reserved i) < 2 ^ 63" "- (2 ^ 63) \<le> sint dr" "sint dr < 2 ^ 63"
    by (rule sint64_bounds)+
  have a_range: "- (2 ^ 63) \<le> sint (i_Quantity i + dq) - sint (i_Reserved i)"
      "sint (i_Quantity i + dq) - sint (i_Reserved i) < 2 ^ 63"
    using assms bound sq1 by simp_all
  then have a: "sql_sub (i_Quantity i + dq) (i_Reserved i) = Some (i_Quantity i + dq - i_Reserved i)"
    and sa: "sint (i_Quantity i + dq - i_Reserved i) = sint (i_Quantity i) + sint dq - sint (i_Reserved i)"
    using sq1 by (simp_all add: sql_sub_def sint64_sub)
  have b_range: "- (2 ^ 63) \<le> sint (i_Quantity i + dq - i_Reserved i) - sint dr"
      "sint (i_Quantity i + dq - i_Reserved i) - sint dr < 2 ^ 63"
    using assms bound sa by simp_all
  then have b: "sql_sub (i_Quantity i + dq - i_Reserved i) dr = Some (i_Quantity i + dq - i_Reserved i - dr)"
    and sb: "sint (i_Quantity i + dq - i_Reserved i - dr) = sint (i_Quantity i) + sint dq - sint (i_Reserved i) - sint dr"
    using sa by (simp_all add: sql_sub_def sint64_sub)
  from assms show ?thesis
    by (simp add: UpdateQuantity_where_def q1 r1 a b word_sle_eq sq1 sr1 sb)
qed

lemma AvailableQuantity_sint:
  assumes "0 \<le> sint (i_Reserved i)" and "sint (i_Reserved i) \<le> sint (i_Quantity i)"
  shows "sint (AvailableQuantity i) = sint (i_Quantity i) - sint (i_Reserved i)"
proof -
  have "sint (i_Quantity i) < 2 ^ 63" by (rule sint64_bounds)
  with assms have "sint (i_Quantity i - i_Reserved i) = sint (i_Quantity i) - sint (i_Reserved i)"
    by (intro sint64_sub) simp_all
  with assms show ?thesis
    by (simp add: AvailableQuantity_def Let_def word_sless_alt)
qed

lemma precheck_where:
  assumes "InventoryItem_Validate i = None" and "0 <s c_quantity c"
    and "precheck (c_method c) i (c_quantity c) = None"
    and "c_method c = MAddStock \<longrightarrow> sint (i_Quantity i) + sint (c_quantity c) < 2 ^ 63"
  shows "UpdateQuantity_where (i_ID i) (quantityDelta c) (reservedDelta c) i = Some True"
proof -
  from Validate_None_D [OF assms(1)]
  have inv: "0 \<le> sint (i_Reserved i)" "sint (i_Reserved i) \<le> sint (i_Quantity i)" by simp_all
  from assms(2) have pos: "0 < sint (c_quantity c)" by (simp add: word_sless_alt)
  note neg = sint64_neg [OF pos]
  note av = AvailableQuantity_sint [OF inv]
  have up: "sint (i_Quantity i) < 2 ^ 63" "sint (c_quantity c) < 2 ^ 63" by (rule sint64_bounds)+
  show ?thesis
  proof (cases "c_method c")
    case MAddStock
    with assms(4) inv pos up show ?thesis
      by (intro where_True_I) (simp_all add: quantityDelta_def reservedDelta_def)
  next
    case MRemoveStock
    with assms(3) have "sint (c_quantity c) \<le> sint (i_Quantity i) - sint (i_Reserved i)"
      by (simp add: precheck_def word_sless_alt av split: if_splits)
    with MRemoveStock inv pos up neg show ?thesis
      by (intro where_True_I) (simp_all add: quantityDelta_def reservedDelta_def)
  next
    case MReserveStock
    with assms(3) have "sint (c_quantity c) \<le> sint (i_Quantity i) - sint (i_Reserved i)"
      by (simp add: precheck_def word_sless_alt av split: if_splits)
    with MReserveStock inv pos up neg show ?thesis
      by (intro where_True_I) (simp_all add: quantityDelta_def reservedDelta_def)
  next
    case MUnreserveStock
    with assms(3) have "sint (c_quantity c) \<le> sint (i_Reserved i)"
      by (simp add: precheck_def word_sless_alt split: if_splits)
    with MUnreserveStock inv pos up neg show ?thesis
      by (intro where_True_I) (simp_all add: quantityDelta_def reservedDelta_def)
  qed
qed

lemma Transaction_Create_ok:
  assumes "transaction_insert_err env = None" and "i_ID i \<noteq> []" and "c_productID c \<noteq> []"
    and "0 <s c_quantity c"
  shows "Transaction_Create env s (transaction_of c i) =
           (None, append_transaction env s (transaction_of c i))"
proof -
  from assms(4) have "\<not> c_quantity c \<le>s 0" by (simp add: word_sless_alt word_sle_eq)
  moreover have "t_Type (transaction_of c i) \<in> set validTypes"
    by (cases "c_method c") (simp_all add: transaction_of_def validTypes_def)
  ultimately have "Transaction_Validate (transaction_of c i) = None"
    using assms(2,3) by (simp add: Transaction_Validate_def) (simp add: transaction_of_def)
  with assms(1) show ?thesis
    by (simp add: Transaction_Create_def append_transaction_def)
qed


lemma Transaction_Create_fail:
  assumes "transaction_insert_err env = Some e" and "i_ID i \<noteq> []" and "c_productID c \<noteq> []"
    and "0 <s c_quantity c"
  shows "Transaction_Create env s (transaction_of c i) =
           (Some (''failed to create transaction: '' @ e), s)"
proof -
  from assms(4) have "\<not> c_quantity c \<le>s 0" by (simp add: word_sless_alt word_sle_eq)
  moreover have "t_Type (transaction_of c i) \<in> set validTypes"
    by (cases "c_method c") (simp_all add: transaction_of_def validTypes_def)
  ultimately have "Transaction_Validate (transaction_of c i) = None"
    using assms(2,3) by (simp add: Transaction_Validate_def) (simp add: transaction_of_def)
  with assms(1) show ?thesis
    by (simp add: Transaction_Create_def)
qed

lemma stock_call_wf:
  assumes wf: "wf_store s" and item: "item_of s (c_productID c) = Some i"
    and pos: "0 <s c_quantity c"
    and sel: "inventory_select_err env = None" and upd: "inventory_update_err env = None"
  shows "stock_call env s c = outcome env s c i"
proof -
  from pos have npos: "\<not> c_quantity c \<le>s 0" by (simp add: word_sless_alt word_sle_eq)
  from item_of_D [OF item] have mem: "i \<in> set (tbl_inventory s)" and pid: "i_ProductID i = c_productID c"
    by simp_all
  from wf_store_D [OF wf mem] have ident: "i_ID i \<noteq> []" and val: "InventoryItem_Validate i = None"
    by simp_all
  from Validate_None_D [OF val] pid have pne: "c_productID c \<noteq> []" by simp
  have get: "Inventory_GetByProductID env s (c_productID c) = Inr i"
    using sel item by (simp add: Get_item_of)
  note uq = UpdateQuantity_wf [OF wf item upd, of "quantityDelta c" "reservedDelta c"]
  show ?thesis
  proof (cases "precheck (c_method c) i (c_quantity c)")
    case (Some e)
    with npos get show ?thesis by (simp add: stock_call_def outcome_def)
  next
    case None
    show ?thesis
    proof (cases "UpdateQuantity_where (i_ID i) (quantityDelta c) (reservedDelta c) i")
      case none: None
      with None npos get uq show ?thesis by (simp add: stock_call_def outcome_def)
    next
      case (Some hit)
      show ?thesis
      proof (cases hit)
        case False
        with Some None npos get uq show ?thesis by (simp add: stock_call_def outcome_def)
      next
        case True
        show ?thesis
        proof (cases "transaction_insert_err env")
          case ins: None
          from Transaction_Create_ok [OF ins ident pne pos] True Some None npos get uq ins
          show ?thesis by (simp add: stock_call_def outcome_def)
        next
          case (Some e)
          from Transaction_Create_fail [OF Some ident pne pos] True \<open>UpdateQuantity_where _ _ _ _ = _\<close>
            None npos get uq Some
          show ?thesis by (simp add: stock_call_def outcome_def)
        qed
      qed
    qed
  qed
qed


section \<open>The stock methods\<close>

lemma RemoveStock_invoke:
  "RemoveStock env s productID quantity reference =
   stock_call env s \<lparr>c_method = MRemoveStock, c_productID = productID, c_quantity = quantity,
     c_reference = reference\<rparr>"
  by (simp add: invoke_stock_call [symmetric] invoke_def)

lemma ReserveStock_invoke:
  "ReserveStock env s productID quantity reference =
   stock_call env s \<lparr>c_method = MReserveStock, c_productID = productID, c_quantity = quantity,
     c_reference = reference\<rparr>"
  by (simp add: invoke_stock_call [symmetric] invoke_def)

lemma item_of_append_transaction [simp]:
  "item_of (append_transaction env s t) pid = item_of s pid"
  by (simp add: item_of_def append_transaction_def)

lemma tbl_transactions_apply_delta [simp]:
  "tbl_transactions (apply_delta s ident dq dr) = tbl_transactions s"
  by (simp add: apply_delta_def)

lemma item_of_apply_delta_self:
  "item_of s pid = Some i \<Longrightarrow>
   item_of (apply_delta s (i_ID i) dq dr) pid = Some (UpdateQuantity_set dq dr i)"
  by (simp add: item_of_apply_delta)

text \<open>
  C3. On a well-formed store where no statement fails, for the row \<open>i\<close> of the
  product and every quantity above zero: when the available quantity is not below the
  quantity, RemoveStock returns no error, the row's quantity is lower by exactly the
  quantity (no wrap-around) and one OUT transaction of that quantity is appended to the
  ledger; when the available quantity is below it, RemoveStock returns
  "insufficient stock available" and the store is as it was.
\<close>

theorem C3_RemoveStock:
  assumes "wf_store s" and "item_of s productID = Some i" and "0 <s quantity"
    and "no_faults env"
  shows "(\<not> AvailableQuantity i <s quantity \<longrightarrow>
            fst (RemoveStock env s productID quantity reference) = None \<and>
            item_of (snd (RemoveStock env s productID quantity reference)) productID =
              Some (i\<lparr>i_Quantity := i_Quantity i - quantity\<rparr>) \<and>
            sint (i_Quantity i - quantity) = sint (i_Quantity i) - sint quantity \<and>
            tbl_transactions (snd (RemoveStock env s productID quantity reference)) =
              tbl_transactions s @
                [\<lparr>t_ID = transaction_uuid env, t_InventoryID = i_ID i, t_ProductID = productID,
                  t_Type = ''OUT'', t_Quantity = quantity, t_Reference = reference,
                  t_Notes = ''Stock removal''\<rparr>]) \<and>
         (AvailableQuantity i <s quantity \<longrightarrow>
            RemoveStock env s productID quantity reference =
              (Some ''insufficient stock available'', s))"
proof -
  let ?c = "\<lparr>c_method = MRemoveStock, c_productID = productID, c_quantity = quantity,
     c_reference = reference\<rparr>"
  from assms(4) have sel: "inventory_select_err env = None" and upd: "inventory_update_err env = None"
    and ins: "transaction_insert_err env = None"
    by (simp_all add: no_faults_def)
  have call: "RemoveStock env s productID quantity reference = outcome env s ?c i"
    using stock_call_wf [of s ?c i env] assms(1-3) sel upd by (simp add: RemoveStock_invoke)
  from assms(1,2) have val: "InventoryItem_Validate i = None"
    by (auto dest: item_of_D wf_store_D)
  show ?thesis
  proof (cases "AvailableQuantity i <s quantity")
    case True
    then show ?thesis by (simp add: call outcome_def precheck_def)
  next
    case False
    then have pre: "precheck (c_method ?c) i (c_quantity ?c) = None" by (simp add: precheck_def)
    from precheck_where [OF val _ pre] assms(3)
    have w: "UpdateQuantity_where (i_ID i) (- quantity) 0 i = Some True"
      by (simp add: quantityDelta_def reservedDelta_def)
    from where_True(2) [OF w] assms(3)
    have arith: "sint (i_Quantity i - quantity) = sint (i_Quantity i) - sint quantity"
      by (simp add: sint64_neg word_sless_alt)
    have res: "RemoveStock env s productID quantity reference =
        (None, append_transaction env (apply_delta s (i_ID i) (- quantity) 0) (transaction_of ?c i))"
      using pre w ins by (simp add: call outcome_def quantityDelta_def reservedDelta_def)
    have "UpdateQuantity_set (- quantity) 0 i = i\<lparr>i_Quantity := i_Quantity i - quantity\<rparr>"
      by (simp add: UpdateQuantity_set_def)
    with False arith assms(2) show ?thesis
      by (simp add: res item_of_apply_delta_self) (simp add: append_transaction_def transaction_of_def)
  qed
qed


theorem C3_RemoveStock_witness:
  "wf_store (test_store 50 0) \<and> item_of (test_store 50 0) ''prod-1'' = Some (test_item 50 0) \<and>
   (0 :: int64) <s 20 \<and> no_faults test_env \<and> \<not> AvailableQuantity (test_item 50 0) <s 20 \<and>
   fst (RemoveStock test_env (test_store 50 0) ''prod-1'' 20 ''ORDER-001'') = None \<and>
   item_of (snd (RemoveStock test_env (test_store 50 0) ''prod-1'' 20 ''ORDER-001'')) ''prod-1'' =
     Some (test_item 30 0) \<and>
   length (tbl_transactions (snd (RemoveStock test_env (test_store 50 0) ''prod-1'' 20 ''ORDER-001''))) = 1 \<and>
   wf_store (test_store 10 0) \<and> item_of (test_store 10 0) ''prod-1'' = Some (test_item 10 0) \<and>
   AvailableQuantity (test_item 10 0) <s 20 \<and>
   RemoveStock test_env (test_store 10 0) ''prod-1'' 20 ''ORDER-001'' =
     (Some ''insufficient stock available'', test_store 10 0)"
proof -
  have wf50: "wf_store (test_store 50 0)" and it50: "item_of (test_store 50 0) ''prod-1'' = Some (test_item 50 0)"
    and wf10: "wf_store (test_store 10 0)" and it10: "item_of (test_store 10 0) ''prod-1'' = Some (test_item 10 0)"
    and pos: "(0 :: int64) <s 20" and nf: "no_faults test_env"
    and av50: "\<not> AvailableQuantity (test_item 50 0) <s 20"
    and av10: "AvailableQuantity (test_item 10 0) <s 20"
    by code_simp+
  have upd: "test_item 50 0\<lparr>i_Quantity := i_Quantity (test_item 50 0) - 20\<rparr> = test_item 30 0"
    by (simp add: test_item_def)
  from C3_RemoveStock [OF wf50 it50 pos nf, of "''ORDER-001''"] av50 upd
  have ok: "fst (RemoveStock test_env (test_store 50 0) ''prod-1'' 20 ''ORDER-001'') = None \<and>
   item_of (snd (RemoveStock test_env (test_store 50 0) ''prod-1'' 20 ''ORDER-001'')) ''prod-1'' =
     Some (test_item 30 0) \<and>
   length (tbl_transactions (snd (RemoveStock test_env (test_store 50 0) ''prod-1'' 20 ''ORDER-001''))) = 1"
    by (simp add: test_store_def)
  from C3_RemoveStock [OF wf10 it10 pos nf, of "''ORDER-001''"] av10
  have rej: "RemoveStock test_env (test_store 10 0) ''prod-1'' 20 ''ORDER-001'' =
     (Some ''insufficient stock available'', test_store 10 0)"
    by simp
  from wf50 it50 pos nf av50 ok wf10 it10 av10 rej show ?thesis by (intro conjI) simp_all
qed


text \<open>
  C4. On a well-formed store where no statement fails, for the row \<open>i\<close> of the
  product and every quantity above zero: when the available quantity is not below the
  quantity, ReserveStock returns no error, the row's reserved is higher by exactly the
  quantity, its quantity is unchanged and one RESERVE transaction is appended; when the
  available quantity is below it, ReserveStock returns
  "insufficient stock available for reservation" and the store is as it was.
\<close>

theorem C4_ReserveStock:
  assumes "wf_store s" and "item_of s productID = Some i" and "0 <s quantity"
    and "no_faults env"
  shows "(\<not> AvailableQuantity i <s quantity \<longrightarrow>
            fst (ReserveStock env s productID quantity reference) = None \<and>
            item_of (snd (ReserveStock env s productID quantity reference)) productID =
              Some (i\<lparr>i_Reserved := i_Reserved i + quantity\<rparr>) \<and>
            sint (i_Reserved i + quantity) = sint (i_Reserved i) + sint quantity \<and>
            tbl_transactions (snd (ReserveStock env s productID quantity reference)) =
              tbl_transactions s @
                [\<lparr>t_ID = transaction_uuid env, t_InventoryID = i_ID i, t_ProductID = productID,
                  t_Type = ''RESERVE'', t_Quantity = quantity, t_Reference = reference,
                  t_Notes = ''Stock reservation''\<rparr>]) \<and>
         (AvailableQuantity i <s quantity \<longrightarrow>
            ReserveStock env s productID quantity reference =
              (Some ''insufficient stock available for reservation'', s))"
proof -
  let ?c = "\<lparr>c_method = MReserveStock, c_productID = productID, c_quantity = quantity,
     c_reference = reference\<rparr>"
  from assms(4) have sel: "inventory_select_err env = None" and upd: "inventory_update_err env = None"
    and ins: "transaction_insert_err env = None"
    by (simp_all add: no_faults_def)
  have call: "ReserveStock env s productID quantity reference = outcome env s ?c i"
    using stock_call_wf [of s ?c i env] assms(1-3) sel upd by (simp add: ReserveStock_invoke)
  from assms(1,2) have val: "InventoryItem_Validate i = None"
    by (auto dest: item_of_D wf_store_D)
  show ?thesis
  proof (cases "AvailableQuantity i <s quantity")
    case True
    then show ?thesis by (simp add: call outcome_def precheck_def)
  next
    case False
    then have pre: "precheck (c_method ?c) i (c_quantity ?c) = None" by (simp add: precheck_def)
    from precheck_where [OF val _ pre] assms(3)
    have w: "UpdateQuantity_where (i_ID i) 0 quantity i = Some True"
      by (simp add: quantityDelta_def reservedDelta_def)
    note arith = where_True(3) [OF w]
    have res: "ReserveStock env s productID quantity reference =
        (None, append_transaction env (apply_delta s (i_ID i) 0 quantity) (transaction_of ?c i))"
      using pre w ins by (simp add: call outcome_def quantityDelta_def reservedDelta_def)
    have "UpdateQuantity_set 0 quantity i = i\<lparr>i_Reserved := i_Reserved i + quantity\<rparr>"
      by (simp add: UpdateQuantity_set_def)
    with False arith assms(2) show ?thesis
      by (simp add: res item_of_apply_delta_self) (simp add: append_transaction_def transaction_of_def)
  qed
qed

theorem C4_ReserveStock_witness:
  "wf_store (test_store 50 0) \<and> item_of (test_store 50 0) ''prod-1'' = Some (test_item 50 0) \<and>
   (0 :: int64) <s 10 \<and> no_faults test_env \<and> \<not> AvailableQuantity (test_item 50 0) <s 10 \<and>
   fst (ReserveStock test_env (test_store 50 0) ''prod-1'' 10 ''ORDER-001'') = None \<and>
   item_of (snd (ReserveStock test_env (test_store 50 0) ''prod-1'' 10 ''ORDER-001'')) ''prod-1'' =
     Some (test_item 50 10) \<and>
   AvailableQuantity (test_item 50 10) = 40 \<and>
   length (tbl_transactions
     (snd (ReserveStock test_env (test_store 50 0) ''prod-1'' 10 ''ORDER-001''))) = 1 \<and>
   wf_store (test_store 50 45) \<and> item_of (test_store 50 45) ''prod-1'' = Some (test_item 50 45) \<and>
   AvailableQuantity (test_item 50 45) <s 10 \<and>
   ReserveStock test_env (test_store 50 45) ''prod-1'' 10 ''ORDER-001'' =
     (Some ''insufficient stock available for reservation'', test_store 50 45)"
proof -
  have wf50: "wf_store (test_store 50 0)"
    and it50: "item_of (test_store 50 0) ''prod-1'' = Some (test_item 50 0)"
    and wf45: "wf_store (test_store 50 45)"
    and it45: "item_of (test_store 50 45) ''prod-1'' = Some (test_item 50 45)"
    and pos: "(0 :: int64) <s 10" and nf: "no_faults test_env"
    and av50: "\<not> AvailableQuantity (test_item 50 0) <s 10"
    and av40: "AvailableQuantity (test_item 50 10) = 40"
    and av45: "AvailableQuantity (test_item 50 45) <s 10"
    by code_simp+
  have upd: "test_item 50 0\<lparr>i_Reserved := i_Reserved (test_item 50 0) + 10\<rparr> = test_item 50 10"
    by (simp add: test_item_def)
  from C4_ReserveStock [OF wf50 it50 pos nf, of "''ORDER-001''"] av50 upd
  have ok: "fst (ReserveStock test_env (test_store 50 0) ''prod-1'' 10 ''ORDER-001'') = None \<and>
   item_of (snd (ReserveStock test_env (test_store 50 0) ''prod-1'' 10 ''ORDER-001'')) ''prod-1'' =
     Some (test_item 50 10) \<and>
   length (tbl_transactions
     (snd (ReserveStock test_env (test_store 50 0) ''prod-1'' 10 ''ORDER-001''))) = 1"
    by (simp add: test_store_def)
  from C4_ReserveStock [OF wf45 it45 pos nf, of "''ORDER-001''"] av45
  have rej: "ReserveStock test_env (test_store 50 45) ''prod-1'' 10 ''ORDER-001'' =
     (Some ''insufficient stock available for reservation'', test_store 50 45)"
    by simp
  from wf50 it50 pos nf av50 ok av40 wf45 it45 av45 rej show ?thesis
    by (intro conjI) simp_all
qed

lemma UpdateQuantity_Some_unchanged:
  "UpdateQuantity env s ident dq dr = (Some e, s1) \<Longrightarrow> s1 = s"
  by (auto simp: UpdateQuantity_def split: option.splits if_splits)

lemma stock_call_rejected:
  assumes "stock_call env s c = (Some e, s1)" and "\<not> audit_failure e"
  shows "s1 = s"
  using assms
  by (auto simp: stock_call_def audit_failure_def update_failed_def precheck_def
      split: if_splits sum.splits option.splits prod.splits stock_method.splits
      dest: UpdateQuantity_Some_unchanged)


lemma UnreserveStock_invoke:
  "UnreserveStock env s productID quantity reference =
   stock_call env s \<lparr>c_method = MUnreserveStock, c_productID = productID, c_quantity = quantity,
     c_reference = reference\<rparr>"
  by (simp add: invoke_stock_call [symmetric] invoke_def)

lemma AddStock_invoke:
  "AddStock env s productID quantity reference =
   stock_call env s \<lparr>c_method = MAddStock, c_productID = productID, c_quantity = quantity,
     c_reference = reference\<rparr>"
  by (simp add: invoke_stock_call [symmetric] invoke_def)

lemma stock_call_precheck:
  assumes "Inventory_GetByProductID env s (c_productID c) = Inr i" and "0 <s c_quantity c"
    and "precheck (c_method c) i (c_quantity c) = Some e"
  shows "stock_call env s c = (Some e, s)"
proof -
  from assms(2) have "\<not> c_quantity c \<le>s 0" by (simp add: word_sless_alt word_sle_eq)
  with assms(1,3) show ?thesis by (simp add: stock_call_def)
qed

text \<open>
  C5. A RemoveStock, ReserveStock or UnreserveStock call that returns an error other than
  the failure to record the transaction leaves the whole store as it was: every row's
  quantity and reserved, and the ledger. A call whose check on the row it read fails
  (available below the quantity, or reserved below the quantity for UnreserveStock) is
  such a call: it returns the method's own error and the store unchanged.
\<close>

theorem C5_rejection_without_effect:
  "(RemoveStock env s productID quantity reference = (Some e, s1) \<and> \<not> audit_failure e
      \<longrightarrow> s1 = s) \<and>
   (ReserveStock env s productID quantity reference = (Some e, s1) \<and> \<not> audit_failure e
      \<longrightarrow> s1 = s) \<and>
   (UnreserveStock env s productID quantity reference = (Some e, s1) \<and> \<not> audit_failure e
      \<longrightarrow> s1 = s) \<and>
   (Inventory_GetByProductID env s productID = Inr i \<and> 0 <s quantity \<and>
    AvailableQuantity i <s quantity
      \<longrightarrow> RemoveStock env s productID quantity reference =
            (Some ''insufficient stock available'', s)) \<and>
   (Inventory_GetByProductID env s productID = Inr i \<and> 0 <s quantity \<and>
    AvailableQuantity i <s quantity
      \<longrightarrow> ReserveStock env s productID quantity reference =
            (Some ''insufficient stock available for reservation'', s)) \<and>
   (Inventory_GetByProductID env s productID = Inr i \<and> 0 <s quantity \<and>
    i_Reserved i <s quantity
      \<longrightarrow> UnreserveStock env s productID quantity reference =
            (Some ''insufficient reserved stock'', s))"
  unfolding RemoveStock_invoke ReserveStock_invoke UnreserveStock_invoke
  by (intro conjI impI; (elim conjE)?)
    (auto dest: stock_call_rejected intro!: stock_call_precheck simp: precheck_def)


theorem C5_rejection_without_effect_witness:
  "UnreserveStock test_env (test_store 50 5) ''prod-1'' 20 ''ORDER-001'' =
     (Some ''insufficient reserved stock'', test_store 50 5) \<and>
   i_Reserved (test_item 50 5) <s 20 \<and>
   \<not> audit_failure ''insufficient reserved stock'' \<and>
   snd (UnreserveStock test_env (test_store 50 5) ''prod-1'' 20 ''ORDER-001'') = test_store 50 5 \<and>
   RemoveStock test_env (test_store 10 0) ''prod-1'' 20 ''ORDER-001'' =
     (Some ''insufficient stock available'', test_store 10 0) \<and>
   ReserveStock test_env (test_store 10 0) ''prod-1'' 20 ''ORDER-001'' =
     (Some ''insufficient stock available for reservation'', test_store 10 0)"
proof -
  have get5: "Inventory_GetByProductID test_env (test_store 50 5) ''prod-1'' = Inr (test_item 50 5)"
    and get10: "Inventory_GetByProductID test_env (test_store 10 0) ''prod-1'' = Inr (test_item 10 0)"
    and pos: "(0 :: int64) <s 20"
    and low5: "i_Reserved (test_item 50 5) <s 20"
    and low10: "AvailableQuantity (test_item 10 0) <s 20"
    and na: "\<not> audit_failure ''insufficient reserved stock''"
    by code_simp+
  note all = C5_rejection_without_effect
    [of test_env _ "''prod-1''" 20 "''ORDER-001''" "''insufficient reserved stock''" _ _]
  from all [of "test_store 50 5" "test_store 50 5" "test_item 50 5"] get5 pos low5
  have unres: "UnreserveStock test_env (test_store 50 5) ''prod-1'' 20 ''ORDER-001'' =
     (Some ''insufficient reserved stock'', test_store 50 5)"
    by blast
  from all [of "test_store 10 0" "test_store 10 0" "test_item 10 0"] get10 pos low10
  have rem: "RemoveStock test_env (test_store 10 0) ''prod-1'' 20 ''ORDER-001'' =
     (Some ''insufficient stock available'', test_store 10 0)"
    and res: "ReserveStock test_env (test_store 10 0) ''prod-1'' 20 ''ORDER-001'' =
     (Some ''insufficient stock available for reservation'', test_store 10 0)"
    by blast+
  from all [of "test_store 50 5" "snd (UnreserveStock test_env (test_store 50 5) ''prod-1'' 20 ''ORDER-001'')"
      "test_item 50 5"] unres na
  have same: "snd (UnreserveStock test_env (test_store 50 5) ''prod-1'' 20 ''ORDER-001'') = test_store 50 5"
    by simp
  from unres low5 na same rem res show ?thesis by (intro conjI)
qed

section \<open>The transaction record\<close>

lemma Get_tx_env [simp]:
  "Inventory_GetByProductID (env\<lparr>transaction_insert_err := x\<rparr>) s p = Inventory_GetByProductID env s p"
  by (simp add: Inventory_GetByProductID_def)

lemma UpdateQuantity_tx_env [simp]:
  "UpdateQuantity (env\<lparr>transaction_insert_err := x\<rparr>) s ident dq dr = UpdateQuantity env s ident dq dr"
  by (simp add: UpdateQuantity_def)

lemma UpdateQuantity_other_tables:
  "UpdateQuantity env s ident dq dr = (e, s1) \<Longrightarrow>
   tbl_transactions s1 = tbl_transactions s \<and> tbl_products s1 = tbl_products s"
  by (auto simp: UpdateQuantity_def split: option.splits if_splits)







section \<open>Product creation\<close>

lemma Product_Create_None:
  "Product_Create env s p = (None, p1, s1) \<Longrightarrow>
   Product_Validate p = None \<and> p1 = p\<lparr>p_ID := product_uuid env\<rparr> \<and>
   s1 = s\<lparr>tbl_products := tbl_products s @ [p\<lparr>p_ID := product_uuid env\<rparr>]\<rparr>"
  by (auto simp: Product_Create_def Let_def split: option.splits)

lemma Inventory_Create_None:
  "Inventory_Create env s item = (None, item1, s1) \<Longrightarrow>
   InventoryItem_Validate item = None \<and> item1 = item\<lparr>i_ID := inventory_uuid env\<rparr> \<and>
   s1 = s\<lparr>tbl_inventory := tbl_inventory s @ [item\<lparr>i_ID := inventory_uuid env\<rparr>]\<rparr>"
  by (auto simp: Inventory_Create_def Let_def split: option.splits)

text \<open>
  C8, as amended. When CreateProduct returns no error, the insert of the transaction does
  not fail and the identifiers are uuid strings (not empty), then the product was valid,
  the initial quantity is at least zero, and the store has gained exactly: the product;
  one inventory row with that quantity and \<open>reserved = 0\<close>; and, when the quantity is
  above zero, one IN transaction of that quantity with reference INITIAL_STOCK, otherwise
  no transaction.
\<close>

theorem C8_CreateProduct:
  assumes "fst (CreateProduct env s product location initialQuantity) = None"
    and "transaction_insert_err env = None" and "inventory_uuid env \<noteq> []"
  shows "Product_Validate product = None \<and> 0 \<le>s initialQuantity \<and>
    snd (snd (CreateProduct env s product location initialQuantity)) =
      s\<lparr>tbl_products := tbl_products s @ [product\<lparr>p_ID := product_uuid env\<rparr>],
        tbl_inventory := tbl_inventory s @
          [\<lparr>i_ID = inventory_uuid env, i_ProductID = product_uuid env,
            i_Quantity = initialQuantity, i_Reserved = 0, i_Location = location\<rparr>],
        tbl_transactions := tbl_transactions s @
          (if 0 <s initialQuantity
           then [\<lparr>t_ID = transaction_uuid env, t_InventoryID = inventory_uuid env,
                  t_ProductID = product_uuid env, t_Type = ''IN'', t_Quantity = initialQuantity,
                  t_Reference = ''INITIAL_STOCK'', t_Notes = ''Initial stock entry''\<rparr>]
           else [])\<rparr>"
proof -
  let ?item = "\<lparr>i_ID = [], i_ProductID = product_uuid env, i_Quantity = initialQuantity,
     i_Reserved = 0, i_Location = location\<rparr>"
  from assms(1) obtain p1 s1 item1 s2 where
    pc: "Product_Create env s product = (None, p1, s1)"
    and ic: "Inventory_Create env s1 \<lparr>i_ID = [], i_ProductID = p_ID p1, i_Quantity = initialQuantity,
     i_Reserved = 0, i_Location = location\<rparr> = (None, item1, s2)"
    by (auto simp: CreateProduct_def Let_def split: option.splits prod.splits)
  note p = Product_Create_None [OF pc]
  from p have pid: "p_ID p1 = product_uuid env" by simp
  note i = Inventory_Create_None [OF ic [unfolded pid]]
  from i have val: "InventoryItem_Validate ?item = None" by simp
  then have uuid: "product_uuid env \<noteq> []" and q: "0 \<le> sint initialQuantity"
    by (auto dest!: Validate_None_D)
  have res: "snd (snd (CreateProduct env s product location initialQuantity)) =
     (if 0 <s initialQuantity
      then snd (Transaction_Create env s2
        \<lparr>t_ID = [], t_InventoryID = inventory_uuid env, t_ProductID = product_uuid env,
         t_Type = ''IN'', t_Quantity = initialQuantity, t_Reference = ''INITIAL_STOCK'',
         t_Notes = ''Initial stock entry''\<rparr>)
      else s2)"
    using p pc ic i pid by (simp add: CreateProduct_def Let_def)
  have tx: "Transaction_Create env s2
        \<lparr>t_ID = [], t_InventoryID = inventory_uuid env, t_ProductID = product_uuid env,
         t_Type = ''IN'', t_Quantity = initialQuantity, t_Reference = ''INITIAL_STOCK'',
         t_Notes = ''Initial stock entry''\<rparr> =
      (None, s2\<lparr>tbl_transactions := tbl_transactions s2 @
         [\<lparr>t_ID = transaction_uuid env, t_InventoryID = inventory_uuid env,
           t_ProductID = product_uuid env, t_Type = ''IN'', t_Quantity = initialQuantity,
           t_Reference = ''INITIAL_STOCK'', t_Notes = ''Initial stock entry''\<rparr>]\<rparr>)"
    if "0 <s initialQuantity"
    using that assms(2,3) uuid
    by (simp add: Transaction_Create_def Transaction_Validate_def validTypes_def
        word_sless_alt word_sle_eq)
  from p i q res tx show ?thesis
    by (simp add: word_sle_eq)
qed

theorem C8_CreateProduct_witness:
  "fst (CreateProduct test_env empty_store test_product ''Warehouse A'' 50) = None \<and>
   transaction_insert_err test_env = None \<and> inventory_uuid test_env \<noteq> [] \<and>
   tbl_inventory (snd (snd (CreateProduct test_env empty_store test_product ''Warehouse A'' 50))) =
     [\<lparr>i_ID = ''test-inv-1'', i_ProductID = ''test-id-1'', i_Quantity = 50, i_Reserved = 0,
       i_Location = ''Warehouse A''\<rparr>] \<and>
   tbl_transactions (snd (snd (CreateProduct test_env empty_store test_product ''Warehouse A'' 50))) =
     [\<lparr>t_ID = ''test-tx-1'', t_InventoryID = ''test-inv-1'', t_ProductID = ''test-id-1'',
       t_Type = ''IN'', t_Quantity = 50, t_Reference = ''INITIAL_STOCK'',
       t_Notes = ''Initial stock entry''\<rparr>] \<and>
   fst (CreateProduct test_env empty_store test_product ''Warehouse A'' 0) = None \<and>
   tbl_transactions (snd (snd (CreateProduct test_env empty_store test_product ''Warehouse A'' 0))) = []"
proof -
  have ok50: "fst (CreateProduct test_env empty_store test_product ''Warehouse A'' 50) = None"
    and ok0: "fst (CreateProduct test_env empty_store test_product ''Warehouse A'' 0) = None"
    and ins: "transaction_insert_err test_env = None" and uuid: "inventory_uuid test_env \<noteq> []"
    by code_simp+
  from C8_CreateProduct [OF ok50 ins uuid] C8_CreateProduct [OF ok0 ins uuid] ok50 ok0 ins uuid
  show ?thesis
    by (simp add: test_env_def empty_store_def word_sless_alt)
qed


text \<open>
  When the insert of the transaction fails, CreateProduct still returns no error, and
  no transaction exists although the quantity is above zero.
\<close>

theorem C8_CreateProduct_counterexample:
  "Product_Validate test_product = None \<and> (0 :: int64) <s 50 \<and>
   fst (CreateProduct tx_down_env empty_store test_product ''Warehouse A'' 50) = None \<and>
   tbl_transactions
     (snd (snd (CreateProduct tx_down_env empty_store test_product ''Warehouse A'' 50))) = []"
  by code_simp

section \<open>Transaction types\<close>

lemma UpdateQuantity_types:
  "UpdateQuantity env s ident dq dr = (e, s1) \<Longrightarrow> engine_types s \<Longrightarrow> engine_types s1"
  by (auto simp: engine_types_def dest: UpdateQuantity_other_tables)

lemma Transaction_Create_types:
  assumes "engine_types s" and "t_Type t \<in> set [''IN'', ''OUT'', ''RESERVE'', ''UNRESERVE'']"
  shows "engine_types (snd (Transaction_Create env s t))"
  using assms by (auto simp: engine_types_def Transaction_Create_def Let_def split: option.splits)

lemma transaction_of_type:
  "t_Type (transaction_of c i) \<in> set [''IN'', ''OUT'', ''RESERVE'', ''UNRESERVE'']"
  by (cases "c_method c") (simp_all add: transaction_of_def)

lemma stock_call_types: "engine_types s \<Longrightarrow> engine_types (snd (stock_call env s c))"
proof -
  assume s: "engine_types s"
  have tc: "engine_types s2"
    if "Transaction_Create env s1 (transaction_of c i) = (e, s2)" and "engine_types s1" for s1 s2 i e
    using Transaction_Create_types [OF that(2) transaction_of_type, of env c i] that(1) by simp
  from s show ?thesis
    by (auto simp: stock_call_def split: sum.split option.split prod.split
        dest: UpdateQuantity_types tc)
qed

lemma Product_Delete_types: "engine_types s \<Longrightarrow> engine_types (snd (Product_Delete env s ident))"
  by (auto simp: Product_Delete_def Let_def engine_types_def list_all_iff split: option.splits)

lemma CreateProduct_types:
  "engine_types s \<Longrightarrow> engine_types (snd (snd (CreateProduct env s p loc q)))"
proof -
  assume s: "engine_types s"
  have pc: "engine_types s1" if "Product_Create env s p = (e, p1, s1)" for e p1 s1
    using that s by (auto simp: Product_Create_def Let_def engine_types_def split: option.splits)
  have ic: "engine_types s2" if "Inventory_Create env s1 item = (e, item1, s2)" and "engine_types s1"
    for e item item1 s1 s2
    using that by (auto simp: Inventory_Create_def Let_def engine_types_def split: option.splits)
  show ?thesis
    by (auto simp: CreateProduct_def Let_def s split: option.split prod.split
        dest!: pc dest: ic intro!: Product_Delete_types Transaction_Create_types)
qed

lemma handle_types: "engine_types s \<Longrightarrow> engine_types (snd (handle env s r))"
proof (cases r)
  case (ReqCreateProduct p loc q)
  assume "engine_types s"
  from CreateProduct_types [OF this, of env p loc q] ReqCreateProduct show ?thesis
    by (cases "CreateProduct env s p loc q") simp
next
  case (ReqStock c)
  assume "engine_types s"
  with ReqStock show ?thesis by (simp add: invoke_stock_call stock_call_types)
qed

lemma run_types: "engine_types s \<Longrightarrow> engine_types (snd (run s calls))"
proof (induction calls arbitrary: s)
  case Nil
  then show ?case by simp
next
  case (Cons a calls)
  obtain env r where a: "a = (env, r)" by (cases a)
  obtain e s1 where h: "handle env s r = (e, s1)" by (cases "handle env s r")
  with Cons.prems handle_types [of s env r] have "engine_types s1" by simp
  from Cons.IH [OF this] a h show ?case by (cases "run s1 calls") simp
qed

text \<open>
  C10. After any sequence of CreateProduct, AddStock, RemoveStock, ReserveStock and
  UnreserveStock requests from the empty store, under any environment, every transaction
  in the ledger has its type among IN, OUT, RESERVE and UNRESERVE. RETURN is a type
  \<open>Validate\<close> accepts, and it is not among them.
\<close>

theorem C10_transaction_types:
  "list_all (\<lambda>t. t_Type t \<in> set [''IN'', ''OUT'', ''RESERVE'', ''UNRESERVE''])
     (tbl_transactions (snd (run empty_store calls))) \<and>
   ''RETURN'' \<in> set validTypes \<and>
   ''RETURN'' \<notin> set [''IN'', ''OUT'', ''RESERVE'', ''UNRESERVE'']"
proof -
  have "engine_types empty_store" by (simp add: engine_types_def empty_store_def)
  from run_types [OF this, of calls] show ?thesis
    by (simp add: engine_types_def validTypes_def)
qed


section \<open>The ledger agrees with the balances\<close>

lemma ledger_sum_Nil [simp]: "ledger_sum pid ty [] = 0"
  by (simp add: ledger_sum_def)

lemma ledger_sum_append [simp]:
  "ledger_sum pid ty (xs @ ys) = ledger_sum pid ty xs + ledger_sum pid ty ys"
  by (simp add: ledger_sum_def)

lemma ledger_sum_single:
  "ledger_sum pid ty [t] = (if t_ProductID t = pid \<and> t_Type t = ty then sint (t_Quantity t) else 0)"
  by (simp add: ledger_sum_def)

lemma stock_call_None_D:
  "stock_call env s c = (None, s1) \<Longrightarrow>
   0 <s c_quantity c \<and> inventory_select_err env = None \<and> inventory_update_err env = None"
  by (auto simp: stock_call_def Inventory_GetByProductID_def UpdateQuantity_def
      word_sless_alt word_sle_eq
      split: if_splits sum.splits option.splits prod.splits)

lemma outcome_None_D:
  assumes "outcome env s c i = (None, s1)"
  shows "UpdateQuantity_where (i_ID i) (quantityDelta c) (reservedDelta c) i = Some True"
    and "s1 = append_transaction env (apply_delta s (i_ID i) (quantityDelta c) (reservedDelta c))
               (transaction_of c i)"
  using assms by (auto simp: outcome_def split: option.splits if_splits)

lemma deltas_sint:
  assumes "0 <s c_quantity c"
  shows "sint (quantityDelta c) =
           (case c_method c of MAddStock \<Rightarrow> sint (c_quantity c)
            | MRemoveStock \<Rightarrow> - sint (c_quantity c) | _ \<Rightarrow> 0)"
    and "sint (reservedDelta c) =
           (case c_method c of MReserveStock \<Rightarrow> sint (c_quantity c)
            | MUnreserveStock \<Rightarrow> - sint (c_quantity c) | _ \<Rightarrow> 0)"
  using assms
  by (auto simp: quantityDelta_def reservedDelta_def word_sless_alt sint64_neg
      split: stock_method.splits)

lemma ledger_sum_transaction_of:
  "ledger_sum (c_productID c) ''IN'' [transaction_of c i\<lparr>t_ID := u\<rparr>] =
     (case c_method c of MAddStock \<Rightarrow> sint (c_quantity c) | _ \<Rightarrow> 0)"
  "ledger_sum (c_productID c) ''OUT'' [transaction_of c i\<lparr>t_ID := u\<rparr>] =
     (case c_method c of MRemoveStock \<Rightarrow> sint (c_quantity c) | _ \<Rightarrow> 0)"
  "ledger_sum (c_productID c) ''RESERVE'' [transaction_of c i\<lparr>t_ID := u\<rparr>] =
     (case c_method c of MReserveStock \<Rightarrow> sint (c_quantity c) | _ \<Rightarrow> 0)"
  "ledger_sum (c_productID c) ''UNRESERVE'' [transaction_of c i\<lparr>t_ID := u\<rparr>] =
     (case c_method c of MUnreserveStock \<Rightarrow> sint (c_quantity c) | _ \<Rightarrow> 0)"
  by (simp_all add: ledger_sum_single transaction_of_def split: stock_method.split)

lemma stock_call_ledger:
  assumes wf: "wf_store s" and item: "item_of s (c_productID c) = Some i"
    and call: "stock_call env s c = (e, s1)" and rec: "recorded e"
  shows "\<exists>i1 new. wf_store s1 \<and> item_of s1 (c_productID c) = Some i1 \<and>
     tbl_transactions s1 = tbl_transactions s @ new \<and>
     sint (i_Quantity i1) = sint (i_Quantity i) + ledger_sum (c_productID c) ''IN'' new
        - ledger_sum (c_productID c) ''OUT'' new \<and>
     sint (i_Reserved i1) = sint (i_Reserved i) + ledger_sum (c_productID c) ''RESERVE'' new
        - ledger_sum (c_productID c) ''UNRESERVE'' new"
proof (cases e)
  case (Some x)
  with rec have "\<not> audit_failure x" by (simp add: recorded_def)
  with call Some have "s1 = s" by (auto dest: stock_call_rejected)
  with wf item show ?thesis by (intro exI [of _ i] exI [of _ "[]"]) simp
next
  case None
  with call have ok: "stock_call env s c = (None, s1)" by simp
  note d = stock_call_None_D [OF ok]
  from stock_call_wf [OF wf item] d ok have out: "outcome env s c i = (None, s1)" by simp
  note w = outcome_None_D(1) [OF out] and s1 = outcome_None_D(2) [OF out]
  let ?dq = "quantityDelta c" and ?dr = "reservedDelta c"
  let ?new = "[transaction_of c i\<lparr>t_ID := transaction_uuid env\<rparr>]"
  have "wf_store s1"
    using wf_apply_delta [OF wf item w] by (simp add: s1 wf_store_def append_transaction_def)
  moreover have "item_of s1 (c_productID c) = Some (UpdateQuantity_set ?dq ?dr i)"
    using item by (simp add: s1 item_of_apply_delta_self)
  moreover have "tbl_transactions s1 = tbl_transactions s @ ?new"
    by (simp add: s1 append_transaction_def apply_delta_def)
  moreover from d have pos: "0 <s c_quantity c" by simp
  have "sint (i_Quantity (UpdateQuantity_set ?dq ?dr i)) =
      sint (i_Quantity i) + ledger_sum (c_productID c) ''IN'' ?new
        - ledger_sum (c_productID c) ''OUT'' ?new"
    using where_True(2) [OF w] deltas_sint(1) [OF pos]
    by (simp add: UpdateQuantity_set_def ledger_sum_transaction_of split: stock_method.split)
  moreover have "sint (i_Reserved (UpdateQuantity_set ?dq ?dr i)) =
      sint (i_Reserved i) + ledger_sum (c_productID c) ''RESERVE'' ?new
        - ledger_sum (c_productID c) ''UNRESERVE'' ?new"
    using where_True(3) [OF w] deltas_sint(2) [OF pos]
    by (simp add: UpdateQuantity_set_def ledger_sum_transaction_of split: stock_method.split)
  ultimately show ?thesis by blast
qed


lemma handle_ledger:
  assumes wf: "wf_store s" and bal: "balance s pid = Some (q, r)"
    and on: "on_product pid req" and h: "handle env s req = (e, s1)" and rec: "recorded e"
  shows "\<exists>new. wf_store s1 \<and> tbl_transactions s1 = tbl_transactions s @ new \<and>
     balance s1 pid =
       Some (q + ledger_sum pid ''IN'' new - ledger_sum pid ''OUT'' new,
             r + ledger_sum pid ''RESERVE'' new - ledger_sum pid ''UNRESERVE'' new)"
proof (cases req)
  case (ReqCreateProduct p loc iq)
  with on show ?thesis by simp
next
  case (ReqStock c)
  with on have pid: "c_productID c = pid" by simp
  from bal obtain i where item: "item_of s (c_productID c) = Some i"
    and q: "q = sint (i_Quantity i)" and r: "r = sint (i_Reserved i)"
    by (auto simp: balance_def pid)
  from h ReqStock have "stock_call env s c = (e, s1)" by (simp add: invoke_stock_call)
  from stock_call_ledger [OF wf item this rec] show ?thesis
    by (auto simp: balance_def pid q r)
qed

lemma run_ledger:
  assumes "wf_store s" and "balance s pid = Some (q, r)"
    and "list_all (on_product pid) (map snd calls)" and "list_all recorded (fst (run s calls))"
  shows "\<exists>new. tbl_transactions (snd (run s calls)) = tbl_transactions s @ new \<and>
     balance (snd (run s calls)) pid =
       Some (q + ledger_sum pid ''IN'' new - ledger_sum pid ''OUT'' new,
             r + ledger_sum pid ''RESERVE'' new - ledger_sum pid ''UNRESERVE'' new)"
  using assms
proof (induction calls arbitrary: s q r)
  case Nil
  then show ?case by simp
next
  case (Cons a calls)
  obtain env req where a: "a = (env, req)" by (cases a)
  obtain e s1 where h: "handle env s req = (e, s1)" by (cases "handle env s req")
  obtain es s2 where rn: "run s1 calls = (es, s2)" by (cases "run s1 calls")
  from Cons.prems(3) a have on: "on_product pid req" and ons: "list_all (on_product pid) (map snd calls)"
    by simp_all
  from Cons.prems(4) a h rn have rec: "recorded e" and recs: "list_all recorded (fst (run s1 calls))"
    by simp_all
  from handle_ledger [OF Cons.prems(1,2) on h rec] obtain new1 where
    wf1: "wf_store s1" and tx1: "tbl_transactions s1 = tbl_transactions s @ new1"
    and bal1: "balance s1 pid =
       Some (q + ledger_sum pid ''IN'' new1 - ledger_sum pid ''OUT'' new1,
             r + ledger_sum pid ''RESERVE'' new1 - ledger_sum pid ''UNRESERVE'' new1)"
    by blast
  from Cons.IH [OF wf1 bal1 ons recs] obtain new2 where
    tx2: "tbl_transactions (snd (run s1 calls)) = tbl_transactions s1 @ new2"
    and bal2: "balance (snd (run s1 calls)) pid =
       Some (q + ledger_sum pid ''IN'' new1 - ledger_sum pid ''OUT'' new1
               + ledger_sum pid ''IN'' new2 - ledger_sum pid ''OUT'' new2,
             r + ledger_sum pid ''RESERVE'' new1 - ledger_sum pid ''UNRESERVE'' new1
               + ledger_sum pid ''RESERVE'' new2 - ledger_sum pid ''UNRESERVE'' new2)"
    by blast
  from tx1 tx2 bal2 a h rn show ?case
    by (intro exI [of _ "new1 @ new2"]) simp
qed

lemma spec_apply_transaction_cases:
  "spec_apply_transaction (q, r) t =
     (q + (if t_Type t = ''IN'' then sint (t_Quantity t) else 0)
        - (if t_Type t = ''OUT'' then sint (t_Quantity t) else 0),
      r + (if t_Type t = ''RESERVE'' then sint (t_Quantity t) else 0)
        - (if t_Type t = ''UNRESERVE'' then sint (t_Quantity t) else 0))"
  by (simp add: spec_apply_transaction_def)

lemma spec_replay_sums:
  "spec_replay (q, r) txs =
     (q + sum_list (map (\<lambda>t. sint (t_Quantity t)) (filter (\<lambda>t. t_Type t = ''IN'') txs))
        - sum_list (map (\<lambda>t. sint (t_Quantity t)) (filter (\<lambda>t. t_Type t = ''OUT'') txs)),
      r + sum_list (map (\<lambda>t. sint (t_Quantity t)) (filter (\<lambda>t. t_Type t = ''RESERVE'') txs))
        - sum_list (map (\<lambda>t. sint (t_Quantity t)) (filter (\<lambda>t. t_Type t = ''UNRESERVE'') txs)))"
proof (induction txs arbitrary: q r)
  case Nil
  then show ?case by (simp add: spec_replay_def)
next
  case (Cons t txs)
  have "spec_replay (q, r) (t # txs) = spec_replay (spec_apply_transaction (q, r) t) txs"
    by (simp add: spec_replay_def)
  then show ?case
    by (simp only: spec_apply_transaction_cases Cons.IH) simp
qed

lemma spec_replay_ledger:
  "spec_replay (q, r) (filter (\<lambda>t. t_ProductID t = pid) txs) =
     (q + ledger_sum pid ''IN'' txs - ledger_sum pid ''OUT'' txs,
      r + ledger_sum pid ''RESERVE'' txs - ledger_sum pid ''UNRESERVE'' txs)"
  by (simp add: spec_replay_sums ledger_sum_def conj_commute)

text \<open>
  C2. On a well-formed store, take any sequence of AddStock, RemoveStock, ReserveStock
  and UnreserveStock requests on one product, served under any environment, in which no
  call ends with the failure to record its transaction (each call is applied and
  recorded, or rejected). Then the final quantity is the initial quantity plus the sum
  of the IN transactions minus the sum of the OUT transactions appended by the sequence,
  the final reserved is the initial reserved (0 after creation) plus the sum of the
  RESERVE minus the sum of the UNRESERVE transactions, and replaying those transactions
  in creation order from the initial state gives the final quantity and reserved.
\<close>

theorem C2_conservation:
  assumes "wf_store s" and "balance s productID = Some (q, r)"
    and "list_all (on_product productID) (map snd calls)"
    and "list_all recorded (fst (run s calls))"
  shows "balance (snd (run s calls)) productID =
           Some (q + ledger_sum productID ''IN'' (ledger_since s (snd (run s calls)))
                   - ledger_sum productID ''OUT'' (ledger_since s (snd (run s calls))),
                 r + ledger_sum productID ''RESERVE'' (ledger_since s (snd (run s calls)))
                   - ledger_sum productID ''UNRESERVE'' (ledger_since s (snd (run s calls)))) \<and>
         balance (snd (run s calls)) productID =
           Some (spec_replay (q, r)
             (filter (\<lambda>t. t_ProductID t = productID) (ledger_since s (snd (run s calls)))))"
proof -
  from run_ledger [OF assms] obtain new where
    "tbl_transactions (snd (run s calls)) = tbl_transactions s @ new"
    and "balance (snd (run s calls)) productID =
       Some (q + ledger_sum productID ''IN'' new - ledger_sum productID ''OUT'' new,
             r + ledger_sum productID ''RESERVE'' new - ledger_sum productID ''UNRESERVE'' new)"
    by blast
  then show ?thesis
    by (simp add: ledger_since_def spec_replay_ledger)
qed


theorem C2_conservation_witness:
  "wf_store (test_store 50 0) \<and> balance (test_store 50 0) ''prod-1'' = Some (50, 0) \<and>
   list_all (on_product ''prod-1'') (map snd test_calls) \<and>
   list_all recorded (fst (run (test_store 50 0) test_calls)) \<and>
   fst (run (test_store 50 0) test_calls) =
     [None, None, Some ''insufficient stock available'', None, None] \<and>
   ledger_sum ''prod-1'' ''IN'' (ledger_since (test_store 50 0) (snd (run (test_store 50 0) test_calls))) = 20 \<and>
   ledger_sum ''prod-1'' ''OUT'' (ledger_since (test_store 50 0) (snd (run (test_store 50 0) test_calls))) = 30 \<and>
   ledger_sum ''prod-1'' ''RESERVE'' (ledger_since (test_store 50 0) (snd (run (test_store 50 0) test_calls))) = 10 \<and>
   ledger_sum ''prod-1'' ''UNRESERVE'' (ledger_since (test_store 50 0) (snd (run (test_store 50 0) test_calls))) = 5 \<and>
   balance (snd (run (test_store 50 0) test_calls)) ''prod-1'' = Some (40, 5) \<and>
   spec_replay (50, 0) (filter (\<lambda>t. t_ProductID t = ''prod-1'')
     (ledger_since (test_store 50 0) (snd (run (test_store 50 0) test_calls)))) = (40, 5)"
proof -
  have wf: "wf_store (test_store 50 0)" and bal: "balance (test_store 50 0) ''prod-1'' = Some (50, 0)"
    and on: "list_all (on_product ''prod-1'') (map snd test_calls)"
    and rec: "list_all recorded (fst (run (test_store 50 0) test_calls))"
    and errs: "fst (run (test_store 50 0) test_calls) =
      [None, None, Some ''insufficient stock available'', None, None]"
    and sums:
      "ledger_sum ''prod-1'' ''IN'' (ledger_since (test_store 50 0) (snd (run (test_store 50 0) test_calls))) = 20"
      "ledger_sum ''prod-1'' ''OUT'' (ledger_since (test_store 50 0) (snd (run (test_store 50 0) test_calls))) = 30"
      "ledger_sum ''prod-1'' ''RESERVE'' (ledger_since (test_store 50 0) (snd (run (test_store 50 0) test_calls))) = 10"
      "ledger_sum ''prod-1'' ''UNRESERVE'' (ledger_since (test_store 50 0) (snd (run (test_store 50 0) test_calls))) = 5"
    by code_simp+
  note c2 = C2_conservation [OF wf bal on rec]
  from c2 sums have b: "balance (snd (run (test_store 50 0) test_calls)) ''prod-1'' = Some (40, 5)"
    by simp
  from c2 b have rp: "spec_replay (50, 0) (filter (\<lambda>t. t_ProductID t = ''prod-1'')
     (ledger_since (test_store 50 0) (snd (run (test_store 50 0) test_calls)))) = (40, 5)"
    by simp
  from wf bal on rec errs sums b rp show ?thesis by (intro conjI)
qed


section \<open>Calls in progress\<close>

text \<open>A call left alone computes what its method computes.\<close>

lemma alone_stock_call:
  "alone env c s = (Done (fst (stock_call env s c)), snd (stock_call env s c))"
proof (cases "c_quantity c \<le>s 0")
  case True
  then show ?thesis by (simp add: alone_def stock_call_def)
next
  case pos: False
  show ?thesis
  proof (cases "Inventory_GetByProductID env s (c_productID c)")
    case (Inl err)
    with pos show ?thesis by (simp add: alone_def stock_call_def)
  next
    case (Inr i)
    show ?thesis
    proof (cases "precheck (c_method c) i (c_quantity c)")
      case (Some e)
      with pos Inr show ?thesis by (simp add: alone_def stock_call_def)
    next
      case None
      obtain e1 s1 where upd:
        "UpdateQuantity env s (i_ID i) (quantityDelta c) (reservedDelta c) = (e1, s1)"
        by (cases "UpdateQuantity env s (i_ID i) (quantityDelta c) (reservedDelta c)")
      show ?thesis
      proof (cases e1)
        case (Some err)
        with pos Inr None upd show ?thesis by (simp add: alone_def stock_call_def)
      next
        case none: None
        obtain e2 s2 where ins: "Transaction_Create env s1 (transaction_of c i) = (e2, s2)"
          by (cases "Transaction_Create env s1 (transaction_of c i)")
        with pos Inr None upd none show ?thesis
          by (cases e2) (simp_all add: alone_def stock_call_def)
      qed
    qed
  qed
qed

text \<open>
  C6, as amended. When the conditional update of a call changes no row (and the
  statement itself does not fail), UpdateQuantity returns
  "quantity update failed: invalid operation or item not found" and the call returns
  that error behind its method's prefix ("failed to update quantity: " for AddStock and
  RemoveStock, "failed to reserve stock: ", "failed to unreserve stock: "); the store is
  as it was and no transaction is appended. The call does not succeed silently.
\<close>

theorem C6_zero_rows:
  assumes "inventory_update_err env = None"
    and "UpdateQuantity_exec (i_ID inventory) (quantityDelta c) (reservedDelta c)
           (tbl_inventory s) = Some (rows1, 0)"
  shows "UpdateQuantity env s (i_ID inventory) (quantityDelta c) (reservedDelta c) =
           (Some ''quantity update failed: invalid operation or item not found'', s) \<and>
         thread_step env c (Checked inventory) s =
           (Done (Some (update_failed (c_method c) @
              ''quantity update failed: invalid operation or item not found'')), s)"
  using assms by (simp add: UpdateQuantity_def)

theorem C6_zero_rows_witness:
  "inventory_update_err test_env = None \<and>
   UpdateQuantity_exec (i_ID (test_item 50 0)) (quantityDelta (test_stock MRemoveStock 30))
     (reservedDelta (test_stock MRemoveStock 30)) (tbl_inventory (test_store 20 0)) =
     Some ([test_item 20 0], 0) \<and>
   thread_step test_env (test_stock MRemoveStock 30) (Checked (test_item 50 0)) (test_store 20 0) =
     (Done (Some ''failed to update quantity: quantity update failed: invalid operation or item not found''),
      test_store 20 0)"
proof -
  have upd: "inventory_update_err test_env = None"
    and rows: "UpdateQuantity_exec (i_ID (test_item 50 0)) (quantityDelta (test_stock MRemoveStock 30))
     (reservedDelta (test_stock MRemoveStock 30)) (tbl_inventory (test_store 20 0)) =
     Some ([test_item 20 0], 0)"
    and msg: "update_failed (c_method (test_stock MRemoveStock 30)) @
        ''quantity update failed: invalid operation or item not found'' =
      ''failed to update quantity: quantity update failed: invalid operation or item not found''"
    by code_simp+
  from C6_zero_rows [OF upd rows] msg upd rows show ?thesis by simp
qed


text \<open>
  Two RemoveStock calls of 30 on quantity 50: the first reads its row, the second runs
  to its end, then the update of the first changes no row. The first call returns the
  error of UpdateQuantity behind "failed to update quantity: ", not
  "insufficient stock available".
\<close>

theorem C6_generic_error_counterexample:
  "pc_a (conc_run (test_env, test_stock MRemoveStock 30) (test_env, test_stock MRemoveStock 30)
      (test_store 50 0) [True, False, False, False]) = Checked (test_item 50 0) \<and>
   pc_b (conc_run (test_env, test_stock MRemoveStock 30) (test_env, test_stock MRemoveStock 30)
      (test_store 50 0) [True, False, False, False]) = Done None \<and>
   UpdateQuantity_exec ''inv-1'' (- 30) 0
     (tbl_inventory (store (conc_run (test_env, test_stock MRemoveStock 30)
        (test_env, test_stock MRemoveStock 30) (test_store 50 0) [True, False, False, False]))) =
     Some ([test_item 20 0], 0) \<and>
   pc_a (conc_run (test_env, test_stock MRemoveStock 30) (test_env, test_stock MRemoveStock 30)
      (test_store 50 0) [True, False, False, False, True]) =
     Done (Some ''failed to update quantity: quantity update failed: invalid operation or item not found'') \<and>
   ''failed to update quantity: quantity update failed: invalid operation or item not found'' \<noteq>
     ''insufficient stock available''"
  by code_simp



section \<open>Two racing calls\<close>

lemma racing_sym: "racing s i x y \<Longrightarrow> racing s i y x"
  by (auto simp: racing_def jointly_violate_def algebra_simps)

lemma outcome_None_precheck:
  "outcome env s c i = (None, s1) \<Longrightarrow> precheck (c_method c) i (c_quantity c) = None"
  by (auto simp: outcome_def split: option.splits)

lemma racing_D:
  assumes "racing s i x y"
  shows "wf_store s" and "item_of s (c_productID (snd x)) = Some i"
    and "0 <s c_quantity (snd x)"
    and "inventory_select_err (fst x) = None" and "inventory_update_err (fst x) = None"
    and "transaction_insert_err (fst x) = None"
    and "precheck (c_method (snd x)) i (c_quantity (snd x)) = None"
    and "UpdateQuantity_where (i_ID i) (quantityDelta (snd x)) (reservedDelta (snd x)) i = Some True"
    and "i_ID i \<noteq> []" and "c_productID (snd x) \<noteq> []"
    and "invoke (fst x) s (snd x) =
           (None, append_transaction (fst x) (applied_store s i (snd x)) (transaction_of (snd x) i))"
proof -
  from assms show wf: "wf_store s" and item: "item_of s (c_productID (snd x)) = Some i"
    and sel: "inventory_select_err (fst x) = None" and upd: "inventory_update_err (fst x) = None"
    and ins: "transaction_insert_err (fst x) = None"
    by (simp_all add: racing_def no_faults_def)
  from assms obtain s1 where ok: "stock_call (fst x) s (snd x) = (None, s1)"
    by (cases "stock_call (fst x) s (snd x)") (simp add: racing_def invoke_stock_call)
  from stock_call_None_D [OF ok] show pos: "0 <s c_quantity (snd x)" by simp
  from stock_call_wf [OF wf item pos sel upd] ok have out: "outcome (fst x) s (snd x) i = (None, s1)"
    by simp
  from outcome_None_precheck [OF out] show "precheck (c_method (snd x)) i (c_quantity (snd x)) = None" .
  from outcome_None_D(1) [OF out]
  show "UpdateQuantity_where (i_ID i) (quantityDelta (snd x)) (reservedDelta (snd x)) i = Some True" .
  from item_of_D [OF item] have mem: "i \<in> set (tbl_inventory s)"
    and pid: "i_ProductID i = c_productID (snd x)" by simp_all
  from wf_store_D [OF wf mem] show "i_ID i \<noteq> []" by simp
  from wf_store_D [OF wf mem] pid show "c_productID (snd x) \<noteq> []"
    by (auto dest!: Validate_None_D)
  from ok outcome_None_D(2) [OF out]
  show "invoke (fst x) s (snd x) =
           (None, append_transaction (fst x) (applied_store s i (snd x)) (transaction_of (snd x) i))"
    by (simp add: invoke_stock_call applied_store_def)
qed

lemma step_Start:
  assumes "racing s i x y"
  shows "thread_step (fst x) (snd x) Start s = (Checked i, s)"
proof -
  note r = racing_D [OF assms]
  from r(3) have "\<not> c_quantity (snd x) \<le>s 0" by (simp add: word_sless_alt word_sle_eq)
  moreover from r(2,4) have "Inventory_GetByProductID (fst x) s (c_productID (snd x)) = Inr i"
    by (simp add: Get_item_of)
  ultimately show ?thesis using r(7) by simp
qed

lemma step_Checked:
  assumes "racing s i x y"
  shows "thread_step (fst x) (snd x) (Checked i) s = (Updated i, applied_store s i (snd x))"
proof -
  note r = racing_D [OF assms]
  from UpdateQuantity_wf [OF r(1,2,5), of "quantityDelta (snd x)" "reservedDelta (snd x)"] r(8)
  show ?thesis by (simp add: applied_store_def)
qed

lemma step_Updated:
  assumes "racing s i x y"
  shows "thread_step (fst x) (snd x) (Updated i) st =
           (Done None, append_transaction (fst x) st (transaction_of (snd x) i))"
proof -
  note r = racing_D [OF assms]
  from Transaction_Create_ok [OF r(6,9,10,3), of st] show ?thesis by simp
qed


lemma applied_store_facts:
  assumes "racing s i x y"
  shows "wf_store (applied_store s i (snd x))"
    and "item_of (applied_store s i (snd x)) (c_productID (snd x)) =
           Some (UpdateQuantity_set (quantityDelta (snd x)) (reservedDelta (snd x)) i)"
proof -
  note r = racing_D [OF assms]
  from wf_apply_delta [OF r(1,2,8)] show "wf_store (applied_store s i (snd x))"
    by (simp add: applied_store_def)
  from item_of_apply_delta_self [OF r(2)]
  show "item_of (applied_store s i (snd x)) (c_productID (snd x)) =
           Some (UpdateQuantity_set (quantityDelta (snd x)) (reservedDelta (snd x)) i)"
    by (simp add: applied_store_def)
qed

lemma second_update_where:
  assumes "racing s i x y"
  shows "UpdateQuantity_where (i_ID i) (quantityDelta (snd x)) (reservedDelta (snd x))
           (UpdateQuantity_set (quantityDelta (snd y)) (reservedDelta (snd y)) i) \<noteq> Some True"
proof
  let ?iy = "UpdateQuantity_set (quantityDelta (snd y)) (reservedDelta (snd y)) i"
  assume w: "UpdateQuantity_where (i_ID i) (quantityDelta (snd x)) (reservedDelta (snd x)) ?iy = Some True"
  note ry = racing_D [OF racing_sym [OF assms]]
  note wy = where_True [OF ry(8)]
  note wx = where_True [OF w]
  from assms have jv: "jointly_violate i (snd x) (snd y)" by (simp add: racing_def)
  from wx(4,5) wy(2,3) have
    "0 \<le> sint (i_Reserved i) + sint (reservedDelta (snd y)) + sint (reservedDelta (snd x))"
    "sint (i_Reserved i) + sint (reservedDelta (snd y)) + sint (reservedDelta (snd x))
       \<le> sint (i_Quantity i) + sint (quantityDelta (snd y)) + sint (quantityDelta (snd x))"
    by (simp_all add: UpdateQuantity_set_def)
  with jv show False by (simp add: jointly_violate_def algebra_simps)
qed

lemma step_after_other:
  assumes r: "racing s i x y"
    and st: "tbl_inventory st = tbl_inventory (applied_store s i (snd y))"
    and px: "waiting_or_rejected i px"
  shows "\<exists>p. thread_step (fst x) (snd x) px st = (p, st) \<and> waiting_or_rejected i p"
proof -
  let ?iy = "UpdateQuantity_set (quantityDelta (snd y)) (reservedDelta (snd y)) i"
  note rx = racing_D [OF r]
  from r have pid: "c_productID (snd y) = c_productID (snd x)" by (simp add: racing_def)
  note ay = applied_store_facts [OF racing_sym [OF r]]
  from ay(1) st have wf: "wf_store st" by (simp add: wf_store_def)
  from ay(2) st pid have item: "item_of st (c_productID (snd x)) = Some ?iy"
    by (simp add: item_of_def)
  show ?thesis
  proof (cases px)
    case Start
    from rx(3) have "\<not> c_quantity (snd x) \<le>s 0" by (simp add: word_sless_alt word_sle_eq)
    moreover from item rx(4) have "Inventory_GetByProductID (fst x) st (c_productID (snd x)) = Inr ?iy"
      by (simp add: Get_item_of)
    ultimately show ?thesis using Start
      by (cases "precheck (c_method (snd x)) ?iy (c_quantity (snd x))")
        (simp_all add: waiting_or_rejected_def)
  next
    case (Checked j)
    with px have j: "i_ID j = i_ID ?iy" by (simp add: waiting_or_rejected_def)
    from UpdateQuantity_wf [OF wf item rx(5), of "quantityDelta (snd x)" "reservedDelta (snd x)"]
      second_update_where [OF r] Checked j
    show ?thesis
      by (cases "UpdateQuantity_where (i_ID i) (quantityDelta (snd x)) (reservedDelta (snd x)) ?iy")
        (auto simp: waiting_or_rejected_def)
  next
    case (Updated j)
    with px show ?thesis by (simp add: waiting_or_rejected_def)
  next
    case (Done e)
    with px show ?thesis by simp
  qed
qed


lemma phase0_step:
  assumes r: "racing s i x y" and p: "phase0 s i px py st"
  shows "phase0 s i (fst (thread_step (fst x) (snd x) px st)) py
           (snd (thread_step (fst x) (snd x) px st)) \<or>
         phase1 s i x (fst (thread_step (fst x) (snd x) px st)) py
           (snd (thread_step (fst x) (snd x) px st))"
proof -
  from p have st: "st = s" and px: "px = Start \<or> px = Checked i"
    and py: "py = Start \<or> py = Checked i"
    by (simp_all add: phase0_def)
  from px show ?thesis
  proof
    assume "px = Start"
    with st py step_Start [OF r] show ?thesis by (simp add: phase0_def)
  next
    assume "px = Checked i"
    moreover from py have "waiting_or_rejected i py" by (auto simp: waiting_or_rejected_def)
    ultimately show ?thesis using st step_Checked [OF r] by (simp add: phase1_def)
  qed
qed

lemma phase1_own_step:
  assumes r: "racing s i x y" and p: "phase1 s i x px py st"
  shows "phase1 s i x (fst (thread_step (fst x) (snd x) px st)) py
           (snd (thread_step (fst x) (snd x) px st))"
proof -
  from p have py: "waiting_or_rejected i py" by (simp add: phase1_def)
  from p consider
    (upd) "px = Updated i" "st = applied_store s i (snd x)"
  | (fin) "px = Done None"
      "st = append_transaction (fst x) (applied_store s i (snd x)) (transaction_of (snd x) i)"
    by (auto simp: phase1_def)
  then show ?thesis
  proof cases
    case upd
    with py step_Updated [OF r, of st] show ?thesis by (simp add: phase1_def)
  next
    case fin
    with py show ?thesis by (simp add: phase1_def)
  qed
qed

lemma phase1_other_step:
  assumes r: "racing s i x y" and p: "phase1 s i y py px st"
  shows "phase1 s i y py (fst (thread_step (fst x) (snd x) px st))
           (snd (thread_step (fst x) (snd x) px st))"
proof -
  from p have px: "waiting_or_rejected i px"
    and st: "tbl_inventory st = tbl_inventory (applied_store s i (snd y))"
    by (auto simp: phase1_def append_transaction_def)
  from step_after_other [OF r st px] obtain q where
    "thread_step (fst x) (snd x) px st = (q, st)" and "waiting_or_rejected i q" by blast
  with p show ?thesis by (simp add: phase1_def)
qed

lemma race_inv_step:
  assumes r: "racing s i a b" and k: "race_inv s i a b k"
  shows "race_inv s i a b (conc_step a b k first)"
proof (cases first)
  case True
  obtain p s1 where ts: "thread_step (fst a) (snd a) (pc_a k) (store k) = (p, s1)"
    by (cases "thread_step (fst a) (snd a) (pc_a k) (store k)")
  from k consider "phase0 s i (pc_a k) (pc_b k) (store k)"
    | "phase1 s i a (pc_a k) (pc_b k) (store k)" | "phase1 s i b (pc_b k) (pc_a k) (store k)"
    by (auto simp: race_inv_def)
  then show ?thesis
  proof cases
    case 1
    from phase0_step [OF r 1] True ts show ?thesis by (auto simp: race_inv_def conc_step_def)
  next
    case 2
    from phase1_own_step [OF r 2] True ts show ?thesis by (simp add: race_inv_def conc_step_def)
  next
    case 3
    from phase1_other_step [OF r 3] True ts show ?thesis by (simp add: race_inv_def conc_step_def)
  qed
next
  case False
  note r' = racing_sym [OF r]
  obtain p s1 where ts: "thread_step (fst b) (snd b) (pc_b k) (store k) = (p, s1)"
    by (cases "thread_step (fst b) (snd b) (pc_b k) (store k)")
  from k consider "phase0 s i (pc_b k) (pc_a k) (store k)"
    | "phase1 s i a (pc_a k) (pc_b k) (store k)" | "phase1 s i b (pc_b k) (pc_a k) (store k)"
    by (auto simp: race_inv_def phase0_def)
  then show ?thesis
  proof cases
    case 1
    from phase0_step [OF r' 1] False ts show ?thesis
      by (auto simp: race_inv_def conc_step_def phase0_def)
  next
    case 2
    from phase1_other_step [OF r' 2] False ts show ?thesis by (simp add: race_inv_def conc_step_def)
  next
    case 3
    from phase1_own_step [OF r' 3] False ts show ?thesis by (simp add: race_inv_def conc_step_def)
  qed
qed

lemma race_inv_foldl:
  "racing s i a b \<Longrightarrow> race_inv s i a b k \<Longrightarrow> race_inv s i a b (foldl (conc_step a b) k schedule)"
  by (induction schedule arbitrary: k) (simp_all add: race_inv_step)

lemma race_inv_run:
  assumes "racing s i a b"
  shows "race_inv s i a b (conc_run a b s schedule)"
  unfolding conc_run_def
  by (rule race_inv_foldl [OF assms]) (simp add: race_inv_def phase0_def)

lemma conc_step_inv: "store_inv (store k) \<Longrightarrow> store_inv (store (conc_step a b k first))"
proof -
  assume k: "store_inv (store k)"
  from thread_step_inv [OF k, of "fst a" "snd a" "pc_a k"]
    thread_step_inv [OF k, of "fst b" "snd b" "pc_b k"]
  show ?thesis
    by (cases "thread_step (fst a) (snd a) (pc_a k) (store k)";
        cases "thread_step (fst b) (snd b) (pc_b k) (store k)")
      (simp add: conc_step_def)
qed

lemma conc_foldl_inv:
  "store_inv (store k) \<Longrightarrow> store_inv (store (foldl (conc_step a b) k schedule))"
  by (induction schedule arbitrary: k) (simp_all add: conc_step_inv)

lemma wf_store_inv: "wf_store s \<Longrightarrow> store_inv s"
  by (auto simp: wf_store_def store_inv_def list_all_iff dest: Validate_item_inv)

lemma thread_step_remaining:
  "remaining (fst (thread_step env c p s)) \<le> remaining p - 1"
proof (cases p)
  case Start
  then show ?thesis
    by (simp add: remaining_def split: sum.split option.split pc.split)
next
  case (Checked j)
  then show ?thesis
    by (cases "UpdateQuantity env s (i_ID j) (quantityDelta c) (reservedDelta c)")
      (simp add: remaining_def split: option.split)
next
  case (Updated j)
  then show ?thesis
    by (cases "Transaction_Create env s (transaction_of c j)")
      (simp add: remaining_def split: option.split)
next
  case (Done e)
  then show ?thesis by (simp add: remaining_def)
qed

lemma conc_step_remaining:
  "remaining (pc_a (conc_step a b k first)) \<le> remaining (pc_a k) - (if first then 1 else 0)"
  "remaining (pc_b (conc_step a b k first)) \<le> remaining (pc_b k) - (if first then 0 else 1)"
  using thread_step_remaining [of "fst a" "snd a" "pc_a k" "store k"]
    thread_step_remaining [of "fst b" "snd b" "pc_b k" "store k"]
  by (cases "thread_step (fst a) (snd a) (pc_a k) (store k)";
      cases "thread_step (fst b) (snd b) (pc_b k) (store k)"; simp add: conc_step_def)+

lemma conc_foldl_remaining:
  "remaining (pc_a (foldl (conc_step a b) k schedule))
     \<le> remaining (pc_a k) - length (filter (\<lambda>t. t) schedule) \<and>
   remaining (pc_b (foldl (conc_step a b) k schedule))
     \<le> remaining (pc_b k) - length (filter Not schedule)"
proof (induction schedule arbitrary: k)
  case Nil
  then show ?case by simp
next
  case (Cons first schedule)
  from Cons.IH [of "conc_step a b k first"] conc_step_remaining [of a b k first]
  show ?case by (cases first) auto
qed

lemma remaining_0: "remaining p = 0 \<Longrightarrow> \<exists>e. p = Done e"
  by (cases p) (simp_all add: remaining_def)

lemma conc_run_returns:
  assumes "3 \<le> length (filter (\<lambda>t. t) schedule)" and "3 \<le> length (filter Not schedule)"
  shows "\<exists>ra rb. pc_a (conc_run a b s schedule) = Done ra \<and> pc_b (conc_run a b s schedule) = Done rb"
proof -
  from conc_foldl_remaining [of a b "\<lparr>pc_a = Start, pc_b = Start, store = s\<rparr>" schedule] assms
  have "remaining (pc_a (conc_run a b s schedule)) = 0"
    and "remaining (pc_b (conc_run a b s schedule)) = 0"
    by (simp_all add: conc_run_def remaining_def)
  then show ?thesis by (auto dest!: remaining_0)
qed

text \<open>
  C9. Every SQL statement is atomic and the statements of two calls interleave in any
  order. Take two stock calls on the row of one product of a well-formed store, in
  environments where no statement fails, each of which would succeed alone and which
  jointly violate the invariant. Under every schedule that gives each call its three
  statements, exactly one call returns no error and the other returns an error; the
  final store is the store the successful call alone leaves (its update is not lost, and
  nothing of the rejected call is applied). After every prefix of the schedule every
  inventory row satisfies \<open>0 \<le> reserved \<le> quantity\<close>: no negative or over-reserved
  state is visible in between.
\<close>

theorem C9_racing_calls:
  assumes "wf_store s" and "item_of s productID = Some i"
    and "c_productID ca = productID" and "c_productID cb = productID"
    and "no_faults ea" and "no_faults eb"
    and "fst (invoke ea s ca) = None" and "fst (invoke eb s cb) = None"
    and "jointly_violate i ca cb"
    and "3 \<le> length (filter (\<lambda>t. t) schedule)" and "3 \<le> length (filter Not schedule)"
  shows "(pc_a (conc_run (ea, ca) (eb, cb) s schedule) = Done None \<and>
          (\<exists>e. pc_b (conc_run (ea, ca) (eb, cb) s schedule) = Done (Some e)) \<and>
          store (conc_run (ea, ca) (eb, cb) s schedule) = snd (invoke ea s ca) \<or>
          pc_b (conc_run (ea, ca) (eb, cb) s schedule) = Done None \<and>
          (\<exists>e. pc_a (conc_run (ea, ca) (eb, cb) s schedule) = Done (Some e)) \<and>
          store (conc_run (ea, ca) (eb, cb) s schedule) = snd (invoke eb s cb)) \<and>
         store_inv (store (conc_run (ea, ca) (eb, cb) s (take n schedule)))"
proof -
  let ?a = "(ea, ca)" and ?b = "(eb, cb)"
  let ?k = "conc_run ?a ?b s schedule"
  from assms(1-9) have r: "racing s i ?a ?b" by (simp add: racing_def)
  note ia = racing_D(11) [OF r] and ib = racing_D(11) [OF racing_sym [OF r]]
  from conc_run_returns [OF assms(10,11), of ?a ?b s] obtain ra rb where
    pa: "pc_a ?k = Done ra" and pb: "pc_b ?k = Done rb" by blast
  from race_inv_run [OF r, of schedule] pa pb
  have "phase1 s i ?a (Done ra) (Done rb) (store ?k) \<or> phase1 s i ?b (Done rb) (Done ra) (store ?k)"
    by (auto simp: race_inv_def phase0_def)
  then have outcome:
    "ra = None \<and> rb \<noteq> None \<and> store ?k = snd (invoke ea s ca) \<or>
     rb = None \<and> ra \<noteq> None \<and> store ?k = snd (invoke eb s cb)"
    using ia ib by (auto simp: phase1_def waiting_or_rejected_def)
  from wf_store_inv [OF assms(1)]
  have "store_inv (store (conc_run ?a ?b s (take n schedule)))"
    unfolding conc_run_def by (intro conc_foldl_inv) simp
  with outcome pa pb show ?thesis by auto
qed

theorem C9_racing_calls_witness:
  "wf_store (test_store 50 0) \<and> item_of (test_store 50 0) ''prod-1'' = Some (test_item 50 0) \<and>
   no_faults test_env \<and>
   fst (invoke test_env (test_store 50 0) (test_stock MRemoveStock 30)) = None \<and>
   jointly_violate (test_item 50 0) (test_stock MRemoveStock 30) (test_stock MRemoveStock 30) \<and>
   pc_a (conc_run (test_env, test_stock MRemoveStock 30) (test_env, test_stock MRemoveStock 30)
     (test_store 50 0) [True, False, False, False, True, True]) =
     Done (Some ''failed to update quantity: quantity update failed: invalid operation or item not found'') \<and>
   pc_b (conc_run (test_env, test_stock MRemoveStock 30) (test_env, test_stock MRemoveStock 30)
     (test_store 50 0) [True, False, False, False, True, True]) = Done None \<and>
   store (conc_run (test_env, test_stock MRemoveStock 30) (test_env, test_stock MRemoveStock 30)
     (test_store 50 0) [True, False, False, False, True, True]) =
     snd (invoke test_env (test_store 50 0) (test_stock MRemoveStock 30)) \<and>
   tbl_inventory (snd (invoke test_env (test_store 50 0) (test_stock MRemoveStock 30))) =
     [test_item 20 0] \<and>
   store_inv (store (conc_run (test_env, test_stock MRemoveStock 30)
     (test_env, test_stock MRemoveStock 30) (test_store 50 0)
     (take 3 [True, False, False, False, True, True])))"
proof -
  let ?c = "test_stock MRemoveStock 30"
  let ?sch = "[True, False, False, False, True, True]"
  have wf: "wf_store (test_store 50 0)"
    and item: "item_of (test_store 50 0) ''prod-1'' = Some (test_item 50 0)"
    and pid: "c_productID ?c = ''prod-1''" and nf: "no_faults test_env"
    and ok: "fst (invoke test_env (test_store 50 0) ?c) = None"
    and jv: "jointly_violate (test_item 50 0) ?c ?c"
    and ta: "3 \<le> length (filter (\<lambda>t. t) ?sch)" and tb: "3 \<le> length (filter Not ?sch)"
    and pa: "pc_a (conc_run (test_env, ?c) (test_env, ?c) (test_store 50 0) ?sch) =
      Done (Some ''failed to update quantity: quantity update failed: invalid operation or item not found'')"
    and inv: "tbl_inventory (snd (invoke test_env (test_store 50 0) ?c)) = [test_item 20 0]"
    by code_simp+
  note c9 = C9_racing_calls [OF wf item pid pid nf nf ok ok jv ta tb, of 3]
  from c9 pa have pb: "pc_b (conc_run (test_env, ?c) (test_env, ?c) (test_store 50 0) ?sch) = Done None"
    and st: "store (conc_run (test_env, ?c) (test_env, ?c) (test_store 50 0) ?sch) =
      snd (invoke test_env (test_store 50 0) ?c)"
    by simp_all
  from c9 have si: "store_inv (store (conc_run (test_env, ?c) (test_env, ?c) (test_store 50 0)
     (take 3 ?sch)))" by simp
  from wf item nf ok jv pa pb st inv si show ?thesis by (intro conjI)
qed


end
